theory Spec2Isabelle
  imports Complex_Main
begin

section \<open>Data model\<close>

text \<open>
  The scene code is TypeScript; its \<^verbatim>\<open>number\<close>s are doubles. They are modelled as
  mathematical reals, and in two places, where rounding decides whether the end of an
  interval is reached, with the rounding the code performs: the store of the initial rain
  positions into a \<^verbatim>\<open>Float32Array\<close>, and the sums that schedule the next lightning.
  A call of \<^verbatim>\<open>Math.random()\<close> is an input of the model: a value \<open>r\<close> with
  \<open>0 \<le> r < 1\<close>, or a list \<open>rnd\<close> of the values that successive calls return.
  The repository holds two versions of the scene: \<^verbatim>\<open>components/OceanEnvironment.tsx\<close>
  (camera and gesture logic in \<^verbatim>\<open>SceneController\<close>), which \<^verbatim>\<open>App.tsx\<close> imports, and a
  second file of the same component (camera and gesture logic in \<^verbatim>\<open>SceneContent\<close>).
  Definitions of the second file that share a name with the first carry the suffix
  \<open>_alt\<close>.
\<close>

text \<open>
  \<^verbatim>\<open>types.ts\<close>: \<^verbatim>\<open>Vector2\<close>, \<^verbatim>\<open>HandData\<close>, \<^verbatim>\<open>GameState\<close>. The coordinates are
  named \<open>x2\<close>, \<open>y2\<close> (and \<open>x3\<close>, \<open>y3\<close>, \<open>z3\<close> for the three.js \<^verbatim>\<open>Vector3\<close>), so that
  \<open>x\<close> and \<open>y\<close> stay free for variables.
\<close>

record Vector2 =
  x2 :: real
  y2 :: real

record HandData =
  isDetected :: bool
  position :: Vector2
  directionVector :: Vector2

datatype GameState = NORMAL | STORM

record Vector3 =
  x3 :: real
  y3 :: real
  z3 :: real

text \<open>
  \<^verbatim>\<open>MathUtils.lerp(x, y, t)\<close> of three.js, which the scene code calls for the water
  distortion and for the lightning flash: \<^verbatim>\<open>(1 - t) * x + t * y\<close>, with no clamp on
  \<^verbatim>\<open>t\<close>.
\<close>

definition lerp :: "real \<Rightarrow> real \<Rightarrow> real \<Rightarrow> real" where
  "lerp a b t = (1 - t) * a + t * b"

section \<open>Rounding\<close>

text \<open>
  Rounding to the nearest value of a binary floating-point format with \<open>p\<close> significant
  bits and least exponent \<open>emin\<close>, ties to the even neighbour: the value is cut to a
  multiple of the quantum \<open>2^(e - p + 1)\<close> of its binade \<open>e\<close>. \<open>float64\<close> is the rounding
  of every arithmetic result of the code, \<open>float32\<close> that of a store into a
  \<^verbatim>\<open>Float32Array\<close>. Overflow to infinity is left out: the values rounded below are
  bounded by a few thousand.
\<close>

definition roundTiesToEven :: "real \<Rightarrow> int" where
  "roundTiesToEven v =
     (let f = \<lfloor>v\<rfloor>; d = v - of_int f
      in if d < 1/2 then f else if 1/2 < d then f + 1 else if even f then f else f + 1)"

definition binary_round :: "nat \<Rightarrow> int \<Rightarrow> real \<Rightarrow> real" where
  "binary_round p emin v =
     (if v = 0 then 0
      else (let e = max emin \<lfloor>log 2 \<bar>v\<bar>\<rfloor>;
                q = 2 powr of_int (e - int p + 1)
            in of_int (roundTiesToEven (v / q)) * q))"

definition float64 :: "real \<Rightarrow> real" where
  "float64 v = binary_round 53 (- 1022) v"

definition float32 :: "real \<Rightarrow> real" where
  "float32 v = binary_round 24 (- 126) v"

section \<open>Rain\<close>

text \<open>
  \<^verbatim>\<open>Rain\<close> is the same in both versions of the scene.
  \<^verbatim>\<open>const count = 5000\<close> is its number of particles.
\<close>

definition count :: nat where
  "count = 5000"

text \<open>
  \<^verbatim>\<open>initialPositions\<close>: a \<^verbatim>\<open>Float32Array(count * 3)\<close>, zero-filled, then written
  particle by particle; particle \<open>i\<close> draws three random numbers, in the order x, y, z,
  so call number \<open>i * 3 + 1\<close> gives its height. Each value is computed in doubles and
  rounded to a float when it is stored.
  The loop is \<^verbatim>\<open>for (let i = 0; i < count; i++)\<close>, with the bound as a parameter.
\<close>

function initialPositions_loop :: "nat \<Rightarrow> real list \<Rightarrow> nat \<Rightarrow> real list \<Rightarrow> real list" where
  "initialPositions_loop n rnd i pos =
     (if i < n then
        initialPositions_loop n rnd (i + 1)
          (pos[i * 3 := float32 (float64 (float64 (rnd ! (i * 3) - 0.5) * 800)),
               i * 3 + 1 := float32 (float64 (rnd ! (i * 3 + 1) * 400)),
               i * 3 + 2 := float32 (float64 (float64 (rnd ! (i * 3 + 2) - 0.5) * 800))])
      else pos)"
  by pat_completeness auto
termination
  by (relation "measure (\<lambda>(n, rnd, i, pos). n - i)") auto

declare initialPositions_loop.simps [simp del]

definition initialPositions :: "real list \<Rightarrow> real list" where
  "initialPositions rnd = initialPositions_loop count rnd 0 (replicate (count * 3) 0)"

text \<open>
  The frame callback of \<^verbatim>\<open>Rain\<close>:
  \<^verbatim>\<open>for (let i = 1; i < count * 3; i += 3) { positions[i] -= 150 * delta;
     if (positions[i] < 0) positions[i] = 300; }\<close>
  The first argument is the loop bound \<^verbatim>\<open>count * 3\<close>.
\<close>

function Rain_loop :: "nat \<Rightarrow> real \<Rightarrow> nat \<Rightarrow> real list \<Rightarrow> real list" where
  "Rain_loop n delta i positions =
     (if i < n then
        (let p1 = positions[i := positions ! i - 150 * delta];
             p2 = (if p1 ! i < 0 then p1[i := 300] else p1)
         in Rain_loop n delta (i + 3) p2)
      else positions)"
  by pat_completeness auto
termination
  by (relation "measure (\<lambda>(n, delta, i, positions). n - i)") auto

declare Rain_loop.simps [simp del]

definition Rain_useFrame :: "real \<Rightarrow> real list \<Rightarrow> real list" where
  "Rain_useFrame delta positions = Rain_loop (count * 3) delta 1 positions"

text \<open>
  One pass of the loop body on a height \<open>h\<close>: the particle wraps when the lowered height
  is below 0, and is then put at 300.
\<close>

definition wraps :: "real \<Rightarrow> real \<Rightarrow> bool" where
  "wraps delta h = (h - 150 * delta < 0)"

definition fall :: "real \<Rightarrow> real \<Rightarrow> real" where
  "fall delta h = (if wraps delta h then 300 else h - 150 * delta)"

section \<open>Water surface\<close>

text \<open>
  The uniforms of the water material that \<^verbatim>\<open>OceanMesh\<close> animates. Both versions add
  \<^verbatim>\<open>delta * 0.5\<close> to the time uniform and move \<^verbatim>\<open>distortionScale\<close> towards 8.0 in a
  storm and 3.7 otherwise; the first with the factor \<^verbatim>\<open>delta\<close>, the second with
  \<^verbatim>\<open>delta * 0.5\<close>.
\<close>

record Uniforms =
  time_value :: real
  distortionScale :: real

definition OceanMesh_useFrame :: "GameState \<Rightarrow> real \<Rightarrow> Uniforms \<Rightarrow> Uniforms" where
  "OceanMesh_useFrame gs delta u =
     (let baseDistortion = 3.7;
          stormDistortion = 8.0;
          targetDistortion = (if gs = STORM then stormDistortion else baseDistortion)
      in u\<lparr>time_value := time_value u + delta * 0.5,
           distortionScale := lerp (distortionScale u) targetDistortion delta\<rparr>)"

definition OceanMesh_useFrame_alt :: "GameState \<Rightarrow> real \<Rightarrow> Uniforms \<Rightarrow> Uniforms" where
  "OceanMesh_useFrame_alt gs delta u =
     (let isStorm = (gs = STORM);
          targetDistortion = (if isStorm then 8.0 else 3.7)
      in u\<lparr>time_value := time_value u + delta * 0.5,
           distortionScale := lerp (distortionScale u) targetDistortion (delta * 0.5)\<rparr>)"

section \<open>Camera and gesture accumulator\<close>

text \<open>
  \<^verbatim>\<open>SceneController\<close> owns \<^verbatim>\<open>moveDurationRef\<close> and \<^verbatim>\<open>velocity\<close> and writes the
  camera position. Its frame callback returns the new values and the number of times it
  called \<^verbatim>\<open>onEventTrigger\<close>. It is not given the game state.
\<close>

record SceneController_refs =
  moveDurationRef :: real
  velocity :: Vector3
  camera_position :: Vector3

definition SceneController_isMoving :: "HandData \<Rightarrow> bool" where
  "SceneController_isMoving handData =
     (isDetected handData \<and>
      (let deadzone = 0.15;
           mag = sqrt ((x2 (directionVector handData))\<^sup>2 + (y2 (directionVector handData))\<^sup>2)
       in mag > deadzone))"

definition SceneController_targetVelocity :: "HandData \<Rightarrow> Vector3" where
  "SceneController_targetVelocity handData =
     (let SPEED = 15.0
      in if SceneController_isMoving handData
         then \<lparr>x3 = x2 (directionVector handData) * SPEED, y3 = 0,
               z3 = y2 (directionVector handData) * SPEED\<rparr>
         else \<lparr>x3 = 0, y3 = 0, z3 = 0\<rparr>)"

definition SceneController_useFrame ::
  "HandData \<Rightarrow> real \<Rightarrow> SceneController_refs \<Rightarrow> SceneController_refs \<times> nat" where
  "SceneController_useFrame handData delta s =
     (let EVENT_THRESHOLD_SECONDS = 10;
          targetVelocity = SceneController_targetVelocity handData;
          isMoving = SceneController_isMoving handData;
          (m, fired) =
            (if isMoving then
               (let m1 = moveDurationRef s + delta
                in if m1 > EVENT_THRESHOLD_SECONDS then (0, 1) else (m1, 0))
             else (max 0 (moveDurationRef s - delta * 2), 0));
          v = (velocity s)
                \<lparr>x3 := x3 (velocity s) + (x3 targetVelocity - x3 (velocity s)) * 0.05,
                 z3 := z3 (velocity s) + (z3 targetVelocity - z3 (velocity s)) * 0.05\<rparr>;
          c = (camera_position s)
                \<lparr>x3 := x3 (camera_position s) + x3 v * delta,
                 z3 := z3 (camera_position s) + z3 v * delta,
                 y3 := 10\<rparr>
      in (\<lparr>moveDurationRef = m, velocity = v, camera_position = c\<rparr>, fired))"

fun SceneController_run :: "HandData \<Rightarrow> real list \<Rightarrow> SceneController_refs \<Rightarrow> SceneController_refs" where
  "SceneController_run handData [] s = s"
| "SceneController_run handData (delta # deltas) s =
     SceneController_run handData deltas (fst (SceneController_useFrame handData delta s))"

text \<open>The canvas places the camera at \<^verbatim>\<open>[0, 10, 100]\<close>; the refs start at zero.\<close>

definition SceneController_init :: SceneController_refs where
  "SceneController_init =
     \<lparr>moveDurationRef = 0, velocity = \<lparr>x3 = 0, y3 = 0, z3 = 0\<rparr>,
      camera_position = \<lparr>x3 = 0, y3 = 10, z3 = 100\<rparr>\<rparr>"

text \<open>
  \<^verbatim>\<open>SceneContent\<close>, the second version: \<^verbatim>\<open>movementRef\<close>, the camera position and the
  point the camera looks at. It reads the game state; the whole gesture block is inside
  \<^verbatim>\<open>if (handData.isDetected)\<close>.
\<close>

record SceneContent_refs =
  movementRef :: real
  camera_pos :: Vector3
  camera_lookAt :: Vector3

definition SceneContent_isMoving :: "HandData \<Rightarrow> bool" where
  "SceneContent_isMoving handData =
     (\<bar>x2 (directionVector handData)\<bar> > 0.2 \<or> \<bar>y2 (directionVector handData)\<bar> > 0.2)"

definition SceneContent_useFrame ::
  "HandData \<Rightarrow> GameState \<Rightarrow> real \<Rightarrow> SceneContent_refs \<Rightarrow> SceneContent_refs \<times> nat" where
  "SceneContent_useFrame handData gs delta s =
     (let speed = 0.5;
          targetX = (if isDetected handData then x2 (directionVector handData) * 20 else 0);
          targetY = (if isDetected handData then 10 + y2 (directionVector handData) * 10 else 10);
          lookAtVec = \<lparr>x3 = targetX, y3 = targetY, z3 = - 50\<rparr>;
          c = (camera_pos s)
                \<lparr>x3 := x3 (camera_pos s)
                         + (x2 (directionVector handData) * 10 - x3 (camera_pos s)) * delta * speed,
                 y3 := y3 (camera_pos s)
                         + (y2 (directionVector handData) * 5 + 10 - y3 (camera_pos s)) * delta * speed\<rparr>;
          (m, fired) =
            (if isDetected handData then
               (let m1 = (if SceneContent_isMoving handData then movementRef s + delta
                          else max 0 (movementRef s - delta))
                in if m1 > 10 \<and> gs = NORMAL then (0, 1) else (m1, 0))
             else (movementRef s, 0))
      in (\<lparr>movementRef = m, camera_pos = c, camera_lookAt = lookAtVec\<rparr>, fired))"

fun SceneContent_run ::
  "HandData \<Rightarrow> GameState \<Rightarrow> real list \<Rightarrow> SceneContent_refs \<Rightarrow> SceneContent_refs" where
  "SceneContent_run handData gs [] s = s"
| "SceneContent_run handData gs (delta # deltas) s =
     SceneContent_run handData gs deltas (fst (SceneContent_useFrame handData gs delta s))"

definition SceneContent_init :: SceneContent_refs where
  "SceneContent_init =
     \<lparr>movementRef = 0, camera_pos = \<lparr>x3 = 0, y3 = 10, z3 = 100\<rparr>,
      camera_lookAt = \<lparr>x3 = 0, y3 = 10, z3 = - 50\<rparr>\<rparr>"

section \<open>Lightning\<close>

text \<open>
  \<^verbatim>\<open>LightningSystem\<close> of \<^verbatim>\<open>components/OceanEnvironment.tsx\<close>: the refs
  \<^verbatim>\<open>nextFlashTime\<close> and \<^verbatim>\<open>flashIntensity\<close>, the state \<^verbatim>\<open>activeBolt\<close>, and the point
  light it drives. The frame callback takes \<^verbatim>\<open>enabled\<close>, the clock's
  \<^verbatim>\<open>elapsedTime\<close>, \<^verbatim>\<open>delta\<close> and the three random numbers of a flash (x, z, delay).
  \<^verbatim>\<open>activeBolt\<close> is React state, so the light position of a frame reads the value the
  callback was created with, not the one just set. The next flash time is
  \<^verbatim>\<open>elapsedTime + Math.random() * 2.5 + 0.5\<close>, a product and two sums from left to
  right, each rounded to a double. The 150 ms timeout that clears the bolt again and
  the colour of the scene background are left out: no statement below is about them.
\<close>

record LightningSystem_refs =
  activeBolt :: "Vector3 option"
  nextFlashTime :: real
  flashIntensity :: real
  light_intensity :: real
  light_position :: Vector3

definition LightningSystem_flashes :: "real \<Rightarrow> LightningSystem_refs \<Rightarrow> bool" where
  "LightningSystem_flashes elapsedTime s = (elapsedTime > nextFlashTime s)"

definition LightningSystem_useFrame ::
  "bool \<Rightarrow> real \<Rightarrow> real \<Rightarrow> real \<Rightarrow> real \<Rightarrow> real \<Rightarrow> LightningSystem_refs \<Rightarrow> LightningSystem_refs" where
  "LightningSystem_useFrame enabled elapsedTime delta r1 r2 r3 s =
     (if \<not> enabled then
        s\<lparr>activeBolt := None, flashIntensity := 0, light_intensity := 0\<rparr>
      else
        (let s1 = (if LightningSystem_flashes elapsedTime s then
                     s\<lparr>activeBolt := Some \<lparr>x3 = (r1 - 0.5) * 800, y3 = 300,
                                            z3 = (r2 - 0.5) * 800 - 200\<rparr>,
                       flashIntensity := 2.0,
                       nextFlashTime :=
                         float64 (float64 (elapsedTime + float64 (r3 * 2.5)) + 0.5)\<rparr>
                   else s);
             f = lerp (flashIntensity s1) 0 (delta * 5)
         in s1\<lparr>flashIntensity := f,
                light_intensity := f * 10,
                light_position :=
                  \<lparr>x3 = (case activeBolt s of None \<Rightarrow> 0 | Some b \<Rightarrow> x3 b), y3 = 400,
                   z3 = (case activeBolt s of None \<Rightarrow> 0 | Some b \<Rightarrow> z3 b)\<rparr>\<rparr>))"

text \<open>
  The refs start at 0 and there is no bolt; a three.js point light starts with intensity 1
  at the origin.
\<close>

definition LightningSystem_init :: LightningSystem_refs where
  "LightningSystem_init =
     \<lparr>activeBolt = None, nextFlashTime = 0, flashIntensity = 0, light_intensity = 1,
      light_position = \<lparr>x3 = 0, y3 = 0, z3 = 0\<rparr>\<rparr>"

text \<open>
  The second version schedules lightning with timeouts, in milliseconds: the first after
  \<^verbatim>\<open>Math.random() * 1000\<close>, every next one after \<^verbatim>\<open>Math.random() * 2000 + 1000\<close>,
  computed in doubles.
\<close>

definition LightningSystem_firstDelay_alt :: "real \<Rightarrow> real" where
  "LightningSystem_firstDelay_alt r = float64 (r * 1000)"

definition triggerLightning_nextDelay_alt :: "real \<Rightarrow> real" where
  "triggerLightning_nextDelay_alt r = float64 (float64 (r * 2000) + 1000)"

section \<open>Storm state and its timeouts\<close>

text \<open>
  \<^verbatim>\<open>App\<close> holds \<^verbatim>\<open>gameState\<close> and \<^verbatim>\<open>msg\<close>. \<^verbatim>\<open>triggerStorm\<close> schedules the end of the
  storm with \<^verbatim>\<open>setTimeout(..., 10000)\<close>, and that callback schedules the default message
  with \<^verbatim>\<open>setTimeout(..., 4000)\<close>. The model keeps the pending timeouts as a list of
  (due time, callback), in the order they were set, and a clock in milliseconds; a
  timeout runs in the millisecond in which it falls due.
\<close>

datatype timeout_cb = EndStorm | RestoreMsg

record App =
  gameState :: GameState
  msg :: string
  clock :: nat
  timeouts :: "(nat \<times> timeout_cb) list"

definition App_init :: App where
  "App_init = \<lparr>gameState = NORMAL, msg = ''Use your index finger to guide the view'',
                clock = 0, timeouts = []\<rparr>"

definition setTimeout :: "timeout_cb \<Rightarrow> nat \<Rightarrow> App \<Rightarrow> App" where
  "setTimeout cb ms a = a\<lparr>timeouts := timeouts a @ [(clock a + ms, cb)]\<rparr>"

definition triggerStorm :: "App \<Rightarrow> App" where
  "triggerStorm a =
     (if gameState a = STORM then a
      else setTimeout EndStorm 10000
             (a\<lparr>gameState := STORM, msg := ''A STORM IS PASSING THROUGH...''\<rparr>))"

fun run_timeout :: "timeout_cb \<Rightarrow> App \<Rightarrow> App" where
  "run_timeout EndStorm a =
     setTimeout RestoreMsg 4000
       (a\<lparr>gameState := NORMAL, msg := ''The sky clears. Peace returns.''\<rparr>)"
| "run_timeout RestoreMsg a = a\<lparr>msg := ''Use your index finger to guide the view''\<rparr>"

text \<open>One millisecond passes: the clock moves on and the timeouts now due run, oldest first.\<close>

definition tick_ms :: "App \<Rightarrow> App" where
  "tick_ms a =
     (let now = clock a + 1;
          due = filter (\<lambda>p. fst p \<le> now) (timeouts a);
          rest = filter (\<lambda>p. \<not> fst p \<le> now) (timeouts a)
      in fold (\<lambda>p. run_timeout (snd p)) due (a\<lparr>clock := now, timeouts := rest\<rparr>))"

primrec advance :: "nat \<Rightarrow> App \<Rightarrow> App" where
  "advance 0 a = a"
| "advance (Suc n) a = advance n (tick_ms a)"

text \<open>
  What happens to the application between renders: a millisecond passes, or the scene
  calls \<^verbatim>\<open>onEventTrigger\<close>, which is \<^verbatim>\<open>triggerStorm\<close>.
\<close>

datatype event = Ms | Trigger

fun App_event :: "event \<Rightarrow> App \<Rightarrow> App" where
  "App_event Ms a = tick_ms a"
| "App_event Trigger a = triggerStorm a"

fun run_events :: "event list \<Rightarrow> App \<Rightarrow> App" where
  "run_events [] a = a"
| "run_events (e # es) a = run_events es (App_event e a)"

text \<open>
  Two descriptions of the application state, used to follow a storm through time:
  \<open>calm\<close> is state NORMAL with no end of storm pending, as at the start, and
  \<open>storm_until e\<close> is state STORM before time \<open>e\<close> with the end of the storm pending for
  \<open>e\<close> and for no other time.
\<close>

definition calm :: "App \<Rightarrow> bool" where
  "calm a = (gameState a = NORMAL \<and> EndStorm \<notin> snd ` set (timeouts a))"

definition storm_until :: "nat \<Rightarrow> App \<Rightarrow> bool" where
  "storm_until e a =
     (gameState a = STORM \<and> clock a < e \<and> (e, EndStorm) \<in> set (timeouts a)
      \<and> fst ` {p \<in> set (timeouts a). snd p = EndStorm} = {e})"

text \<open>
  A frame of \<^verbatim>\<open>components/OceanEnvironment.tsx\<close> as \<^verbatim>\<open>App\<close> sees it: the frame
  callback of \<^verbatim>\<open>SceneController\<close> runs, and each call of \<^verbatim>\<open>onEventTrigger\<close> it makes
  reaches \<^verbatim>\<open>triggerStorm\<close>.
\<close>

definition OceanEnvironment_frame ::
  "HandData \<Rightarrow> real \<Rightarrow> App \<times> SceneController_refs \<Rightarrow> App \<times> SceneController_refs" where
  "OceanEnvironment_frame handData delta as =
     (let (s, fired) = SceneController_useFrame handData delta (snd as)
      in ((triggerStorm ^^ fired) (fst as), s))"

section \<open>Rounding: monotone, and exact on representable values\<close>

lemma roundTiesToEven_of_int: "roundTiesToEven (of_int n) = n"
  by (simp add: roundTiesToEven_def)

lemma roundTiesToEven_floor: "\<lfloor>v\<rfloor> \<le> roundTiesToEven v \<and> roundTiesToEven v \<le> \<lfloor>v\<rfloor> + 1"
  by (simp add: roundTiesToEven_def Let_def)

lemma roundTiesToEven_mono:
  assumes "a \<le> b"
  shows "roundTiesToEven a \<le> roundTiesToEven b"
proof (cases "\<lfloor>a\<rfloor> < \<lfloor>b\<rfloor>")
  case True
  have "roundTiesToEven a \<le> \<lfloor>a\<rfloor> + 1" using roundTiesToEven_floor [of a] by simp
  also have "\<dots> \<le> \<lfloor>b\<rfloor>" using True by simp
  also have "\<dots> \<le> roundTiesToEven b" using roundTiesToEven_floor [of b] by simp
  finally show ?thesis .
next
  case False
  then have eq: "\<lfloor>a\<rfloor> = \<lfloor>b\<rfloor>" using floor_mono [OF assms] by simp
  have "a - of_int \<lfloor>b\<rfloor> \<le> b - of_int \<lfloor>b\<rfloor>" using assms by simp
  then show ?thesis
    unfolding roundTiesToEven_def Let_def eq by auto
qed

lemma floor_log2_bounds:
  assumes "0 < v"
  shows "2 powr of_int \<lfloor>log 2 v\<rfloor> \<le> v \<and> v < 2 powr of_int (\<lfloor>log 2 v\<rfloor> + 1)"
  using floor_log_eq_powr_iff [of v 2 "\<lfloor>log 2 v\<rfloor>"] assms by simp

lemma floor_log2_eq:
  assumes "2 powr of_int e \<le> v" and "v < 2 powr of_int (e + 1)"
  shows "\<lfloor>log 2 v\<rfloor> = e"
proof -
  have pos: "0 < v" using assms(1) powr_gt_zero [of 2 "of_int e"] by linarith
  show ?thesis
    using floor_log_eq_powr_iff [of v 2 e] assms pos by simp
qed

text \<open>The quantum of a positive value and the two ends of its binade.\<close>

lemma binary_round_pos:
  assumes "0 < v"
  shows "binary_round p emin v =
           of_int (roundTiesToEven (v / 2 powr of_int (max emin \<lfloor>log 2 v\<rfloor> - int p + 1)))
             * 2 powr of_int (max emin \<lfloor>log 2 v\<rfloor> - int p + 1)"
  using assms by (simp add: binary_round_def Let_def)

lemma binary_round_nonneg:
  assumes "0 \<le> v"
  shows "0 \<le> binary_round p emin v"
proof (cases "v = 0")
  case True
  then show ?thesis by (simp add: binary_round_def)
next
  case False
  then have pos: "0 < v" using assms by simp
  let ?q = "(2::real) powr of_int (max emin \<lfloor>log 2 v\<rfloor> - int p + 1)"
  have "0 \<le> v / ?q" using pos by simp
  then have "roundTiesToEven 0 \<le> roundTiesToEven (v / ?q)"
    by (rule roundTiesToEven_mono)
  then have "0 \<le> roundTiesToEven (v / ?q)"
    using roundTiesToEven_of_int [of 0] by simp
  then show ?thesis
    unfolding binary_round_pos [OF pos] by simp
qed

lemma binary_round_upper:
  assumes "0 < v" and "0 < p"
  shows "binary_round p emin v \<le> 2 powr of_int (max emin \<lfloor>log 2 v\<rfloor> + 1)"
proof -
  let ?e = "max emin \<lfloor>log 2 v\<rfloor>"
  let ?q = "(2::real) powr of_int (?e - int p + 1)"
  have q: "0 < ?q" by simp
  have "v < 2 powr of_int (\<lfloor>log 2 v\<rfloor> + 1)"
    using floor_log2_bounds [OF assms(1)] by simp
  also have "\<dots> \<le> 2 powr of_int (?e + 1)"
    by (intro powr_mono) simp_all
  finally have "v < 2 powr of_int (?e + 1)" .
  then have "v / ?q \<le> 2 powr of_int (?e + 1) / ?q"
    using q by (simp add: divide_le_cancel)
  also have "2 powr of_int (?e + 1) / ?q = 2 powr of_int (int p)"
    by (simp add: powr_diff [symmetric])
  also have "\<dots> = of_int (2 ^ p)"
    by (simp add: powr_realpow)
  finally have "roundTiesToEven (v / ?q) \<le> roundTiesToEven (of_int (2 ^ p))"
    by (rule roundTiesToEven_mono)
  then have "roundTiesToEven (v / ?q) \<le> 2 ^ p"
    by (simp only: roundTiesToEven_of_int)
  then have "of_int (roundTiesToEven (v / ?q)) \<le> (of_int (2 ^ p) :: real)"
    by (simp only: of_int_le_iff)
  then have "of_int (roundTiesToEven (v / ?q)) * ?q \<le> of_int (2 ^ p) * ?q"
    using q by (simp only: mult_le_cancel_right_pos)
  also have "of_int (2 ^ p) * ?q = 2 powr of_int (int p) * ?q"
    by (simp add: powr_realpow)
  also have "\<dots> = 2 powr of_int (?e + 1)"
    by (simp add: powr_add [symmetric])
  finally show ?thesis
    unfolding binary_round_pos [OF assms(1)] .
qed

lemma binary_round_lower:
  assumes "0 < v" and "0 < p" and "emin \<le> \<lfloor>log 2 v\<rfloor>"
  shows "2 powr of_int \<lfloor>log 2 v\<rfloor> \<le> binary_round p emin v"
proof -
  let ?e = "\<lfloor>log 2 v\<rfloor>"
  let ?q = "(2::real) powr of_int (?e - int p + 1)"
  have e: "max emin ?e = ?e" using assms(3) by simp
  have q: "0 < ?q" by simp
  have "2 powr of_int ?e \<le> v"
    using floor_log2_bounds [OF assms(1)] by simp
  then have "2 powr of_int ?e / ?q \<le> v / ?q"
    using q by (simp add: divide_le_cancel)
  moreover have "2 powr of_int ?e / ?q = 2 powr of_int (int (p - 1))"
    using assms(2) by (simp add: powr_diff [symmetric] of_nat_diff)
  moreover have "2 powr of_int (int (p - 1)) = (of_int (2 ^ (p - 1)) :: real)"
    by (simp add: powr_realpow)
  ultimately have "of_int (2 ^ (p - 1)) \<le> v / ?q" by simp
  then have "roundTiesToEven (of_int (2 ^ (p - 1))) \<le> roundTiesToEven (v / ?q)"
    by (rule roundTiesToEven_mono)
  then have "2 ^ (p - 1) \<le> roundTiesToEven (v / ?q)"
    by (simp only: roundTiesToEven_of_int)
  then have "(of_int (2 ^ (p - 1)) :: real) \<le> of_int (roundTiesToEven (v / ?q))"
    by (simp only: of_int_le_iff)
  then have le: "of_int (2 ^ (p - 1)) * ?q \<le> of_int (roundTiesToEven (v / ?q)) * ?q"
    using q by (simp only: mult_le_cancel_right_pos)
  have "2 powr of_int ?e = 2 powr of_int (int (p - 1)) * ?q"
    using assms(2) by (simp add: powr_add [symmetric] of_nat_diff)
  also have "\<dots> = of_int (2 ^ (p - 1)) * ?q"
    by (simp add: powr_realpow)
  also note le
  finally show ?thesis
    unfolding binary_round_pos [OF assms(1)] e .
qed

lemma binary_round_mono:
  assumes "0 \<le> a" and "a \<le> b" and "0 < p"
  shows "binary_round p emin a \<le> binary_round p emin b"
proof (cases "a = 0")
  case True
  then show ?thesis
    using binary_round_nonneg [of b p emin] assms by (simp add: binary_round_def)
next
  case False
  then have a: "0 < a" and b: "0 < b" using assms by simp_all
  let ?ea = "max emin \<lfloor>log 2 a\<rfloor>"
  let ?eb = "max emin \<lfloor>log 2 b\<rfloor>"
  have "log 2 a \<le> log 2 b" using a assms(2) by simp
  then have "\<lfloor>log 2 a\<rfloor> \<le> \<lfloor>log 2 b\<rfloor>" by (rule floor_mono)
  then have le: "?ea \<le> ?eb" by simp
  show ?thesis
  proof (cases "?ea = ?eb")
    case True
    let ?q = "(2::real) powr of_int (?eb - int p + 1)"
    have "a / ?q \<le> b / ?q" using assms(2) by (simp add: divide_le_cancel)
    then have "roundTiesToEven (a / ?q) \<le> roundTiesToEven (b / ?q)"
      by (rule roundTiesToEven_mono)
    then have "of_int (roundTiesToEven (a / ?q)) * ?q \<le> of_int (roundTiesToEven (b / ?q)) * ?q"
      by (simp add: mult_le_cancel_right_pos)
    then show ?thesis
      unfolding binary_round_pos [OF a] binary_round_pos [OF b] True .
  next
    case False
    then have lt: "?ea + 1 \<le> ?eb" using le by simp
    then have eb: "emin \<le> \<lfloor>log 2 b\<rfloor>" and eb': "?eb = \<lfloor>log 2 b\<rfloor>" by auto
    have "binary_round p emin a \<le> 2 powr of_int (?ea + 1)"
      by (rule binary_round_upper [OF a assms(3)])
    also have "\<dots> \<le> 2 powr of_int ?eb"
      using lt by (intro powr_mono) simp_all
    also have "\<dots> \<le> binary_round p emin b"
      unfolding eb' by (rule binary_round_lower [OF b assms(3) eb])
    finally show ?thesis .
  qed
qed

text \<open>A value \<open>m / 2^j\<close> with \<open>m\<close> below \<open>2^p\<close> in absolute value is representable.\<close>

lemma binary_round_exact:
  assumes "\<bar>m\<bar> < 2 ^ p" and "emin + int j \<le> int p - 1" and "0 < p"
  shows "binary_round p emin (of_int m / 2 ^ j) = of_int m / 2 ^ j"
proof (cases "m = 0")
  case True
  then show ?thesis by (simp add: binary_round_def)
next
  case False
  let ?v = "of_int m / 2 ^ j :: real"
  let ?e = "max emin \<lfloor>log 2 \<bar>?v\<bar>\<rfloor>"
  have v0: "?v \<noteq> 0" using False by simp
  have av: "\<bar>?v\<bar> = of_int \<bar>m\<bar> / 2 ^ j" by (simp add: abs_divide)
  have pos: "0 < \<bar>?v\<bar>" using v0 by simp
  have "of_int \<bar>m\<bar> < (of_int (2 ^ p) :: real)"
    using assms(1) by (simp only: of_int_less_iff)
  then have "\<bar>?v\<bar> < 2 ^ p / 2 ^ j"
    unfolding av by (simp add: divide_strict_right_mono)
  also have "(2 ^ p / 2 ^ j :: real) = 2 powr of_int (int p - int j)"
    by (simp add: powr_diff powr_realpow)
  finally have up: "\<bar>?v\<bar> < 2 powr of_int (int p - int j)" .
  have "(2::real) powr of_int \<lfloor>log 2 \<bar>?v\<bar>\<rfloor> \<le> \<bar>?v\<bar>"
    using floor_log2_bounds [OF pos] by simp
  then have "(2::real) powr of_int \<lfloor>log 2 \<bar>?v\<bar>\<rfloor> < 2 powr of_int (int p - int j)"
    using up by linarith
  then have "\<lfloor>log 2 \<bar>?v\<bar>\<rfloor> < int p - int j"
    by (simp only: powr_less_cancel_iff [of 2] one_less_numeral_iff semiring_norm of_int_less_iff)
  then have e: "?e + int j \<le> int p - 1"
    using assms(2) by simp
  define n where "n = nat (int p - 1 - ?e - int j)"
  have n: "int n = int p - 1 - ?e - int j"
    unfolding n_def using e by simp
  let ?q = "(2::real) powr of_int (?e - int p + 1)"
  have ex: "(of_int (int n + int j) :: real) = - of_int (?e - int p + 1)"
    using n by simp
  have "1 / ?q = (2::real) powr (- of_int (?e - int p + 1))"
    by (simp only: powr_minus divide_inverse mult_1)
  also have "\<dots> = (2::real) powr of_int (int n + int j)"
    by (simp only: ex)
  also have "\<dots> = 2 ^ n * 2 ^ j"
    by (simp add: powr_add powr_realpow)
  finally have iq: "1 / ?q = 2 ^ n * 2 ^ j" .
  have "?v / ?q = ?v * (1 / ?q)" by simp
  also have "\<dots> = of_int m * 2 ^ n" unfolding iq by simp
  also have "\<dots> = of_int (m * 2 ^ n)" by simp
  finally have vq: "?v / ?q = of_int (m * 2 ^ n)" .
  have nq: "2 ^ n * ?q = 1 / 2 ^ j"
    using iq by (simp add: field_simps)
  have "of_int (m * 2 ^ n) * ?q = of_int m * (2 ^ n * ?q)" by simp
  also have "\<dots> = ?v" unfolding nq by simp
  finally have again: "of_int (m * 2 ^ n) * ?q = ?v" .
  show ?thesis
    unfolding binary_round_def Let_def vq roundTiesToEven_of_int
    using v0 again by simp
qed

text \<open>Rounding a value whose binade is known.\<close>

lemma binary_round_in_binade:
  assumes "2 ^ k \<le> v" and "v < 2 ^ Suc k" and "emin \<le> int k" and "k + n + 1 = p"
  shows "binary_round p emin v = of_int (roundTiesToEven (v * 2 ^ n)) / 2 ^ n"
proof -
  have pos: "0 < v" using assms(1) by (smt (verit) zero_less_power)
  have "(2::real) powr of_int (int k) \<le> v" using assms(1) by (simp add: powr_realpow)
  moreover have "v < 2 powr of_int (int k + 1)"
    using assms(2) powr_realpow [of 2 "Suc k"] by (simp add: add.commute)
  ultimately have "\<lfloor>log 2 v\<rfloor> = int k" by (rule floor_log2_eq)
  then have e: "max emin \<lfloor>log 2 v\<rfloor> = int k" using assms(3) by simp
  have "int k - int p + 1 = - int n" using assms(4) by simp
  then have q: "(2::real) powr of_int (int k - int p + 1) = 1 / 2 ^ n"
    by (simp add: powr_minus powr_realpow divide_inverse)
  show ?thesis
    unfolding binary_round_pos [OF pos] e q by simp
qed

lemma float64_mono: "0 \<le> a \<Longrightarrow> a \<le> b \<Longrightarrow> float64 a \<le> float64 b"
  unfolding float64_def by (rule binary_round_mono) simp_all

lemma float32_mono: "0 \<le> a \<Longrightarrow> a \<le> b \<Longrightarrow> float32 a \<le> float32 b"
  unfolding float32_def by (rule binary_round_mono) simp_all

lemma float64_exact: "\<bar>m\<bar> < 2 ^ 53 \<Longrightarrow> j \<le> 1000 \<Longrightarrow> float64 (of_int m / 2 ^ j) = of_int m / 2 ^ j"
  unfolding float64_def by (rule binary_round_exact) simp_all

lemma float32_exact: "\<bar>m\<bar> < 2 ^ 24 \<Longrightarrow> j \<le> 100 \<Longrightarrow> float32 (of_int m / 2 ^ j) = of_int m / 2 ^ j"
  unfolding float32_def by (rule binary_round_exact) simp_all

lemma float64_0: "float64 0 = 0" by (simp add: float64_def binary_round_def)
lemma float32_0: "float32 0 = 0" by (simp add: float32_def binary_round_def)

section \<open>Rain: the loops, element by element\<close>

lemma Rain_loop_length: "length (Rain_loop n delta i positions) = length positions"
proof (induction n delta i positions rule: Rain_loop.induct)
  case (1 n delta i positions)
  show ?case
  proof (cases "i < n")
    case True
    then show ?thesis
      using "1.IH" [OF True refl refl]
      by (subst Rain_loop.simps) (simp add: Let_def)
  next
    case False
    then show ?thesis by (subst Rain_loop.simps) simp
  qed
qed

lemma Rain_loop_nth:
  "n \<le> length positions \<Longrightarrow> j < length positions \<Longrightarrow>
   Rain_loop n delta i positions ! j =
     (if i \<le> j \<and> j < n \<and> (j - i) mod 3 = 0 then fall delta (positions ! j) else positions ! j)"
proof (induction n delta i positions rule: Rain_loop.induct)
  case (1 n delta i positions)
  show ?case
  proof (cases "i < n")
    case False
    then show ?thesis by (subst Rain_loop.simps) auto
  next
    case True
    define p1 where "p1 = positions[i := positions ! i - 150 * delta]"
    define p2 where "p2 = (if p1 ! i < 0 then p1[i := 300] else p1)"
    have len: "length p2 = length positions"
      by (simp add: p1_def p2_def)
    have step: "Rain_loop n delta i positions = Rain_loop n delta (i + 3) p2"
      using True by (subst Rain_loop.simps) (simp add: Let_def p1_def p2_def)
    have ih: "Rain_loop n delta (i + 3) p2 ! j =
        (if i + 3 \<le> j \<and> j < n \<and> (j - (i + 3)) mod 3 = 0 then fall delta (p2 ! j) else p2 ! j)"
      using "1.IH" [OF True p1_def p2_def] "1.prems" len by simp
    have ilen: "i < length positions"
      using True "1.prems" by simp
    have at_i: "p2 ! i = fall delta (positions ! i)"
      using ilen by (simp add: p1_def p2_def fall_def wraps_def)
    have off_i: "k \<noteq> i \<Longrightarrow> p2 ! k = positions ! k" for k
      by (simp add: p1_def p2_def)
    show ?thesis
    proof (cases "j = i")
      case True
      then show ?thesis using step ih at_i \<open>i < n\<close> by simp
    next
      case False
      have "(i + 3 \<le> j \<and> (j - (i + 3)) mod 3 = 0) = (i \<le> j \<and> (j - i) mod 3 = 0)"
        using False by presburger
      then show ?thesis using step ih off_i [OF False] by auto
    qed
  qed
qed

lemma Rain_useFrame_length: "length (Rain_useFrame delta positions) = length positions"
  by (simp add: Rain_useFrame_def Rain_loop_length)

lemma Rain_useFrame_height:
  assumes "length positions = count * 3" and "k < count"
  shows "Rain_useFrame delta positions ! (k * 3 + 1) = fall delta (positions ! (k * 3 + 1))"
proof -
  have "k * 3 + 1 < count * 3" using assms(2) by simp
  moreover have "(k * 3 + 1 - 1) mod 3 = 0" by simp
  ultimately show ?thesis
    using assms(1) by (simp add: Rain_useFrame_def Rain_loop_nth)
qed

lemma Rain_useFrame_x:
  assumes "length positions = count * 3" and "k < count"
  shows "Rain_useFrame delta positions ! (k * 3) = positions ! (k * 3)"
proof -
  have "k * 3 < length positions" using assms by simp
  then have "Rain_loop (count * 3) delta 1 positions ! (k * 3) =
      (if 1 \<le> k * 3 \<and> k * 3 < count * 3 \<and> (k * 3 - 1) mod 3 = 0
       then fall delta (positions ! (k * 3)) else positions ! (k * 3))"
    using assms(1) by (intro Rain_loop_nth) simp_all
  moreover have "\<not> (1 \<le> k * 3 \<and> (k * 3 - 1) mod 3 = 0)" by presburger
  ultimately show ?thesis
    unfolding Rain_useFrame_def by presburger
qed

lemma Rain_useFrame_z:
  assumes "length positions = count * 3" and "k < count"
  shows "Rain_useFrame delta positions ! (k * 3 + 2) = positions ! (k * 3 + 2)"
proof -
  have "k * 3 + 2 < count * 3" using assms(2) by simp
  moreover have "(k * 3 + 2 - 1) mod 3 \<noteq> 0" by presburger
  ultimately show ?thesis
    using assms(1) by (simp add: Rain_useFrame_def Rain_loop_nth)
qed

lemma fall_nonneg: "0 \<le> fall delta h"
  by (simp add: fall_def wraps_def)

section \<open>Rain: the initial positions\<close>

lemma initialPositions_loop_length:
  "length (initialPositions_loop n rnd i pos) = length pos"
proof (induction n rnd i pos rule: initialPositions_loop.induct)
  case (1 n rnd i pos)
  show ?case
  proof (cases "i < n")
    case True
    then show ?thesis
      using "1.IH" [OF True] by (subst initialPositions_loop.simps) simp
  next
    case False
    then show ?thesis by (subst initialPositions_loop.simps) simp
  qed
qed

lemma initialPositions_loop_nth:
  "n * 3 \<le> length pos \<Longrightarrow> j < length pos \<Longrightarrow>
   initialPositions_loop n rnd i pos ! j =
     (if i * 3 \<le> j \<and> j < n * 3
      then (if j mod 3 = 1 then float32 (float64 (rnd ! j * 400))
            else float32 (float64 (float64 (rnd ! j - 0.5) * 800)))
      else pos ! j)"
proof (induction n rnd i pos rule: initialPositions_loop.induct)
  case (1 n rnd i pos)
  show ?case
  proof (cases "i < n")
    case False
    then have "\<not> (i * 3 \<le> j \<and> j < n * 3)" by simp
    with False show ?thesis by (subst initialPositions_loop.simps) simp
  next
    case True
    define pos' where "pos' = pos[i * 3 := float32 (float64 (float64 (rnd ! (i * 3) - 0.5) * 800)),
               i * 3 + 1 := float32 (float64 (rnd ! (i * 3 + 1) * 400)),
               i * 3 + 2 := float32 (float64 (float64 (rnd ! (i * 3 + 2) - 0.5) * 800))]"
    have len: "length pos' = length pos" by (simp add: pos'_def)
    have step: "initialPositions_loop n rnd i pos = initialPositions_loop n rnd (i + 1) pos'"
      using True by (subst initialPositions_loop.simps) (simp add: pos'_def)
    have ih: "initialPositions_loop n rnd (i + 1) pos' ! j =
     (if (i + 1) * 3 \<le> j \<and> j < n * 3
      then (if j mod 3 = 1 then float32 (float64 (rnd ! j * 400))
            else float32 (float64 (float64 (rnd ! j - 0.5) * 800)))
      else pos' ! j)"
      using "1.IH" [OF True] "1.prems" len by (simp add: pos'_def)
    have in3: "i * 3 + 2 < length pos" using True "1.prems"(1) by simp
    consider (lo) "j < i * 3" | (a) "j = i * 3" | (b) "j = i * 3 + 1" | (c) "j = i * 3 + 2"
      | (hi) "(i + 1) * 3 \<le> j" by force
    then show ?thesis
    proof cases
      case lo
      then show ?thesis using step ih by (simp add: pos'_def)
    next
      case a
      have "j mod 3 = 0" using a by simp
      then show ?thesis using step ih a in3 True by (simp add: pos'_def)
    next
      case b
      have "j mod 3 = 1" using b by presburger
      then show ?thesis using step ih b in3 True by (simp add: pos'_def)
    next
      case c
      have "j mod 3 = 2" using c by presburger
      then show ?thesis using step ih c in3 True by (simp add: pos'_def)
    next
      case hi
      then have "i * 3 \<le> j" by simp
      moreover have "pos' ! j = pos ! j" using hi by (simp add: pos'_def)
      ultimately show ?thesis using step ih hi by simp
    qed
  qed
qed

lemma initialPositions_length: "length (initialPositions rnd) = count * 3"
  by (simp add: initialPositions_def initialPositions_loop_length)

lemma initialPositions_height:
  assumes "k < count"
  shows "initialPositions rnd ! (k * 3 + 1) = float32 (float64 (rnd ! (k * 3 + 1) * 400))"
proof -
  have "k * 3 + 1 < count * 3" using assms by simp
  moreover have "(k * 3 + 1) mod 3 = 1" by presburger
  ultimately show ?thesis
    by (simp add: initialPositions_def initialPositions_loop_nth)
qed

section \<open>Rain: a particle below 0 goes back to the top\<close>

text \<open>
  C7: in every tick (so in every tick with \<open>delta > 0\<close>), the height of particle \<open>k\<close>
  is lowered by \<open>150 * delta\<close>, and a height that has dropped below 0 is set to the top
  height 300 in that same pass of the loop; the x and z coordinates of the particle are
  not touched. Hence no height is below 0 when the tick ends.
\<close>

theorem Rain_redeposits_within_the_tick:
  assumes "length positions = count * 3" and "k < count"
  shows "Rain_useFrame delta positions ! (k * 3 + 1) =
           (if positions ! (k * 3 + 1) - 150 * delta < 0 then 300
            else positions ! (k * 3 + 1) - 150 * delta)
         \<and> Rain_useFrame delta positions ! (k * 3) = positions ! (k * 3)
         \<and> Rain_useFrame delta positions ! (k * 3 + 2) = positions ! (k * 3 + 2)
         \<and> 0 \<le> Rain_useFrame delta positions ! (k * 3 + 1)"
proof -
  have h: "Rain_useFrame delta positions ! (k * 3 + 1) = fall delta (positions ! (k * 3 + 1))"
    by (rule Rain_useFrame_height [OF assms])
  have "fall delta (positions ! (k * 3 + 1)) =
           (if positions ! (k * 3 + 1) - 150 * delta < 0 then 300
            else positions ! (k * 3 + 1) - 150 * delta)"
    unfolding fall_def wraps_def by (rule refl)
  moreover have "0 \<le> fall delta (positions ! (k * 3 + 1))"
    by (rule fall_nonneg)
  ultimately show ?thesis
    unfolding h using Rain_useFrame_x [OF assms] Rain_useFrame_z [OF assms] by blast
qed

theorem Rain_redeposits_within_the_tick_witness:
  "length (replicate (count * 3) (100::real)) = count * 3 \<and> 0 < count
   \<and> Rain_useFrame 1 (replicate (count * 3) 100) ! (0 * 3 + 1) = 300
   \<and> Rain_useFrame 1 (replicate (count * 3) 100) ! (0 * 3) = 100
   \<and> Rain_useFrame 1 (replicate (count * 3) 100) ! (0 * 3 + 2) = 100"
proof -
  have len: "length (replicate (count * 3) (100::real)) = count * 3" by simp
  have pos: "0 < count" by (simp add: count_def)
  have v: "replicate (count * 3) (100::real) ! j = 100" if "j < 3" for j
    using that by (simp add: count_def)
  show ?thesis
    using Rain_redeposits_within_the_tick [OF len pos, of 1] len pos
    by (simp add: v)
qed

section \<open>A tick with no elapsed time\<close>

lemma lerp_0: "lerp a b 0 = a"
  by (simp add: lerp_def)

lemma SceneController_camera:
  "camera_position (fst (SceneController_useFrame handData delta s)) =
     (camera_position s)
       \<lparr>x3 := x3 (camera_position s)
               + (x3 (velocity s)
                  + (x3 (SceneController_targetVelocity handData) - x3 (velocity s)) * 0.05) * delta,
        z3 := z3 (camera_position s)
               + (z3 (velocity s)
                  + (z3 (SceneController_targetVelocity handData) - z3 (velocity s)) * 0.05) * delta,
        y3 := 10\<rparr>"
  by (simp add: SceneController_useFrame_def Let_def split: prod.splits)

lemma SceneContent_camera:
  "camera_pos (fst (SceneContent_useFrame handData gs delta s)) =
     (camera_pos s)
       \<lparr>x3 := x3 (camera_pos s)
               + (x2 (directionVector handData) * 10 - x3 (camera_pos s)) * delta * 0.5,
        y3 := y3 (camera_pos s)
               + (y2 (directionVector handData) * 5 + 10 - y3 (camera_pos s)) * delta * 0.5\<rparr>"
  by (simp add: SceneContent_useFrame_def Let_def split: prod.splits)

text \<open>
  C1, amended: a tick with \<open>delta = 0\<close> leaves the camera position (at the height 10 that
  \<open>SceneController\<close> keeps it at), the water's \<open>distortionScale\<close> and every rain height
  that is not below 0 exactly as they were. Nothing is stated for \<open>delta < 0\<close>: the frame
  callbacks have no guard on \<open>delta\<close>, and a negative one runs every update backwards.
\<close>

theorem zero_delta_tick_changes_nothing:
  assumes "y3 (camera_position s) = 10"
    and "length positions = count * 3" and "k < count" and "0 \<le> positions ! (k * 3 + 1)"
  shows "camera_position (fst (SceneController_useFrame handData 0 s)) = camera_position s
       \<and> camera_pos (fst (SceneContent_useFrame handData gs 0 c)) = camera_pos c
       \<and> distortionScale (OceanMesh_useFrame gs 0 u) = distortionScale u
       \<and> distortionScale (OceanMesh_useFrame_alt gs 0 u) = distortionScale u
       \<and> Rain_useFrame 0 positions ! (k * 3 + 1) = positions ! (k * 3 + 1)"
proof -
  have cam: "camera_position (fst (SceneController_useFrame handData 0 s)) = camera_position s"
    unfolding SceneController_camera using assms(1) by (intro Vector3.equality) simp_all
  have cam_alt: "camera_pos (fst (SceneContent_useFrame handData gs 0 c)) = camera_pos c"
    unfolding SceneContent_camera by simp
  have water: "distortionScale (OceanMesh_useFrame gs 0 u) = distortionScale u"
    by (simp add: OceanMesh_useFrame_def lerp_0)
  have water_alt: "distortionScale (OceanMesh_useFrame_alt gs 0 u) = distortionScale u"
    by (simp add: OceanMesh_useFrame_alt_def lerp_0)
  have "fall 0 (positions ! (k * 3 + 1)) = positions ! (k * 3 + 1)"
    using assms(4) by (simp add: fall_def wraps_def)
  then have rain: "Rain_useFrame 0 positions ! (k * 3 + 1) = positions ! (k * 3 + 1)"
    using Rain_useFrame_height [OF assms(2,3), of 0] by simp
  from cam cam_alt water water_alt rain show ?thesis by blast
qed

theorem zero_delta_tick_changes_nothing_witness:
  "y3 (camera_position SceneController_init) = 10
   \<and> length (replicate (count * 3) (100::real)) = count * 3 \<and> 0 < count
   \<and> (0::real) \<le> replicate (count * 3) 100 ! (0 * 3 + 1)
   \<and> camera_position (fst (SceneController_useFrame
        \<lparr>isDetected = True, position = \<lparr>x2 = 1, y2 = 1/2\<rparr>, directionVector = \<lparr>x2 = 1, y2 = 0\<rparr>\<rparr>
        0 SceneController_init)) = \<lparr>x3 = 0, y3 = 10, z3 = 100\<rparr>
   \<and> distortionScale (OceanMesh_useFrame STORM 0 \<lparr>time_value = 0, distortionScale = 3.7\<rparr>) = 3.7
   \<and> Rain_useFrame 0 (replicate (count * 3) 100) ! (0 * 3 + 1) = 100"
proof -
  have a1: "y3 (camera_position SceneController_init) = 10"
    by (simp add: SceneController_init_def)
  have a2: "length (replicate (count * 3) (100::real)) = count * 3" by simp
  have a3: "0 < count" by (simp add: count_def)
  have v: "replicate (count * 3) (100::real) ! (0 * 3 + 1) = 100"
    by (simp add: count_def)
  have a4: "(0::real) \<le> replicate (count * 3) 100 ! (0 * 3 + 1)"
    unfolding v by simp
  have c: "camera_position SceneController_init = \<lparr>x3 = 0, y3 = 10, z3 = 100\<rparr>"
    by (simp add: SceneController_init_def)
  show ?thesis
    using zero_delta_tick_changes_nothing [OF a1 a2 a3 a4,
        of "\<lparr>isDetected = True, position = \<lparr>x2 = 1, y2 = 1/2\<rparr>, directionVector = \<lparr>x2 = 1, y2 = 0\<rparr>\<rparr>"
           STORM SceneContent_init "\<lparr>time_value = 0, distortionScale = 3.7\<rparr>"]
      a1 a2 a3 a4
    unfolding v c by simp
qed

text \<open>
  The claim as it stands fails for \<open>delta = -1\<close>: the camera leaves x = 0, the distortion
  leaves 3.7, and a rain height of 100 rises to 250.
\<close>

theorem negative_delta_tick_moves_the_scene:
  "(- 1 :: real) \<le> 0
   \<and> x3 (camera_position SceneController_init) = 0
   \<and> x3 (camera_position (fst (SceneController_useFrame
        \<lparr>isDetected = True, position = \<lparr>x2 = 1, y2 = 1/2\<rparr>, directionVector = \<lparr>x2 = 1, y2 = 0\<rparr>\<rparr>
        (- 1) SceneController_init))) = - (3/4)
   \<and> distortionScale (OceanMesh_useFrame STORM (- 1) \<lparr>time_value = 0, distortionScale = 3.7\<rparr>) = - (3/5)
   \<and> replicate (count * 3) (100::real) ! (0 * 3 + 1) = 100
   \<and> Rain_useFrame (- 1) (replicate (count * 3) 100) ! (0 * 3 + 1) = 250"
proof -
  have mv: "SceneController_isMoving
      \<lparr>isDetected = True, position = \<lparr>x2 = 1, y2 = 1/2\<rparr>, directionVector = \<lparr>x2 = 1, y2 = 0\<rparr>\<rparr>"
    by (simp add: SceneController_isMoving_def)
  have cam: "x3 (camera_position (fst (SceneController_useFrame
        \<lparr>isDetected = True, position = \<lparr>x2 = 1, y2 = 1/2\<rparr>, directionVector = \<lparr>x2 = 1, y2 = 0\<rparr>\<rparr>
        (- 1) SceneController_init))) = - (3/4)"
    unfolding SceneController_camera
    by (simp add: SceneController_targetVelocity_def mv SceneController_init_def)
  have water: "distortionScale (OceanMesh_useFrame STORM (- 1) \<lparr>time_value = 0, distortionScale = 3.7\<rparr>) = - (3/5)"
    by (simp add: OceanMesh_useFrame_def lerp_def)
  have v: "replicate (count * 3) (100::real) ! (0 * 3 + 1) = 100"
    by (simp add: count_def)
  have "Rain_useFrame (- 1) (replicate (count * 3) 100) ! (0 * 3 + 1)
      = fall (- 1) (replicate (count * 3) 100 ! (0 * 3 + 1))"
    by (rule Rain_useFrame_height) (simp_all add: count_def)
  then have rain: "Rain_useFrame (- 1) (replicate (count * 3) 100) ! (0 * 3 + 1) = 250"
    unfolding v by (simp add: fall_def wraps_def)
  show ?thesis
    using cam water v rain by (simp add: SceneController_init_def)
qed

section \<open>Camera smoothing over several ticks\<close>

lemma SceneController_velocity:
  "velocity (fst (SceneController_useFrame handData delta s)) =
     (velocity s)
       \<lparr>x3 := x3 (velocity s)
               + (x3 (SceneController_targetVelocity handData) - x3 (velocity s)) * 0.05,
        z3 := z3 (velocity s)
               + (z3 (SceneController_targetVelocity handData) - z3 (velocity s)) * 0.05\<rparr>"
  by (simp add: SceneController_useFrame_def Let_def split: prod.splits)

lemma SceneContent_run_x:
  "x3 (camera_pos (SceneContent_run handData gs deltas s)) =
     x2 (directionVector handData) * 10
     + (x3 (camera_pos s) - x2 (directionVector handData) * 10)
       * prod_list (map (\<lambda>delta. 1 - delta * 0.5) deltas)"
proof (induction deltas arbitrary: s)
  case Nil
  show ?case by simp
next
  case (Cons delta deltas)
  show ?case
    unfolding SceneContent_run.simps Cons.IH SceneContent_camera
    by (simp add: field_simps)
qed

lemma SceneContent_run_y:
  "y3 (camera_pos (SceneContent_run handData gs deltas s)) =
     (y2 (directionVector handData) * 5 + 10)
     + (y3 (camera_pos s) - (y2 (directionVector handData) * 5 + 10))
       * prod_list (map (\<lambda>delta. 1 - delta * 0.5) deltas)"
proof (induction deltas arbitrary: s)
  case Nil
  show ?case by simp
next
  case (Cons delta deltas)
  show ?case
    unfolding SceneContent_run.simps Cons.IH SceneContent_camera
    by (simp add: field_simps)
qed

lemma SceneController_run_velocity:
  "x3 (velocity (SceneController_run handData deltas s)) =
     x3 (SceneController_targetVelocity handData)
     + (x3 (velocity s) - x3 (SceneController_targetVelocity handData)) * (19/20) ^ length deltas
   \<and> z3 (velocity (SceneController_run handData deltas s)) =
     z3 (SceneController_targetVelocity handData)
     + (z3 (velocity s) - z3 (SceneController_targetVelocity handData)) * (19/20) ^ length deltas"
proof (induction deltas arbitrary: s)
  case Nil
  show ?case by simp
next
  case (Cons delta deltas)
  show ?case
    unfolding SceneController_run.simps
    using Cons.IH [of "fst (SceneController_useFrame handData delta s)"]
    by (simp add: SceneController_velocity field_simps)
qed

lemma SceneController_run_camera_x:
  "x3 (camera_position (SceneController_run handData deltas s)) =
     x3 (camera_position s)
     + (\<Sum>i<length deltas.
          (x3 (SceneController_targetVelocity handData)
           + (x3 (velocity s) - x3 (SceneController_targetVelocity handData)) * (19/20) ^ Suc i)
          * deltas ! i)"
proof (induction deltas arbitrary: s)
  case Nil
  show ?case by simp
next
  case (Cons delta deltas)
  let ?t = "x3 (SceneController_targetVelocity handData)"
  let ?s1 = "fst (SceneController_useFrame handData delta s)"
  have v1: "x3 (velocity ?s1) - ?t = (x3 (velocity s) - ?t) * (19/20)"
    by (simp add: SceneController_velocity field_simps)
  have c1: "x3 (camera_position ?s1) =
      x3 (camera_position s) + (?t + (x3 (velocity s) - ?t) * (19/20) ^ Suc 0) * delta"
    by (simp add: SceneController_camera field_simps)
  have pw: "(x3 (velocity ?s1) - ?t) * (19/20) ^ Suc i
      = (x3 (velocity s) - ?t) * (19/20) ^ Suc (Suc i)" for i
    unfolding v1 by simp
  have "x3 (camera_position (SceneController_run handData (delta # deltas) s)) =
      x3 (camera_position ?s1)
      + (\<Sum>i<length deltas. (?t + (x3 (velocity ?s1) - ?t) * (19/20) ^ Suc i) * deltas ! i)"
    unfolding SceneController_run.simps by (rule Cons.IH)
  also have "\<dots> = x3 (camera_position s)
      + ((?t + (x3 (velocity s) - ?t) * (19/20) ^ Suc 0) * delta
         + (\<Sum>i<length deltas.
              (?t + (x3 (velocity s) - ?t) * (19/20) ^ Suc (Suc i)) * deltas ! i))"
    unfolding pw c1 by (simp only: add.assoc)
  also have "(?t + (x3 (velocity s) - ?t) * (19/20) ^ Suc 0) * delta
         + (\<Sum>i<length deltas.
              (?t + (x3 (velocity s) - ?t) * (19/20) ^ Suc (Suc i)) * deltas ! i)
      = (\<Sum>i<length (delta # deltas).
              (?t + (x3 (velocity s) - ?t) * (19/20) ^ Suc i) * (delta # deltas) ! i)"
    by (simp only: length_Cons sum.lessThan_Suc_shift nth_Cons_0 nth_Cons_Suc)
  finally show ?case .
qed

lemma SceneController_run_camera_z:
  "z3 (camera_position (SceneController_run handData deltas s)) =
     z3 (camera_position s)
     + (\<Sum>i<length deltas.
          (z3 (SceneController_targetVelocity handData)
           + (z3 (velocity s) - z3 (SceneController_targetVelocity handData)) * (19/20) ^ Suc i)
          * deltas ! i)"
proof (induction deltas arbitrary: s)
  case Nil
  show ?case by simp
next
  case (Cons delta deltas)
  let ?t = "z3 (SceneController_targetVelocity handData)"
  let ?s1 = "fst (SceneController_useFrame handData delta s)"
  have v1: "z3 (velocity ?s1) - ?t = (z3 (velocity s) - ?t) * (19/20)"
    by (simp add: SceneController_velocity field_simps)
  have c1: "z3 (camera_position ?s1) =
      z3 (camera_position s) + (?t + (z3 (velocity s) - ?t) * (19/20) ^ Suc 0) * delta"
    by (simp add: SceneController_camera field_simps)
  have pw: "(z3 (velocity ?s1) - ?t) * (19/20) ^ Suc i
      = (z3 (velocity s) - ?t) * (19/20) ^ Suc (Suc i)" for i
    unfolding v1 by simp
  have "z3 (camera_position (SceneController_run handData (delta # deltas) s)) =
      z3 (camera_position ?s1)
      + (\<Sum>i<length deltas. (?t + (z3 (velocity ?s1) - ?t) * (19/20) ^ Suc i) * deltas ! i)"
    unfolding SceneController_run.simps by (rule Cons.IH)
  also have "\<dots> = z3 (camera_position s)
      + ((?t + (z3 (velocity s) - ?t) * (19/20) ^ Suc 0) * delta
         + (\<Sum>i<length deltas.
              (?t + (z3 (velocity s) - ?t) * (19/20) ^ Suc (Suc i)) * deltas ! i))"
    unfolding pw c1 by (simp only: add.assoc)
  also have "(?t + (z3 (velocity s) - ?t) * (19/20) ^ Suc 0) * delta
         + (\<Sum>i<length deltas.
              (?t + (z3 (velocity s) - ?t) * (19/20) ^ Suc (Suc i)) * deltas ! i)
      = (\<Sum>i<length (delta # deltas).
              (?t + (z3 (velocity s) - ?t) * (19/20) ^ Suc i) * (delta # deltas) ! i)"
    by (simp only: length_Cons sum.lessThan_Suc_shift nth_Cons_0 nth_Cons_Suc)
  finally show ?case .
qed

text \<open>
  C2, amended: camera position smoothing depends on the frame rate: with the input held
  constant, the position reached after a total time depends on how that time is cut
  into ticks. In \<open>SceneContent\<close> the interpolation factor of a tick is a rate per second,
  0.5, times \<open>delta\<close>, and after ticks \<open>delta\<^sub>1 ... delta\<^sub>n\<close> the camera is at
  \<open>target + (start - target) * (1 - delta\<^sub>1 / 2) * ... * (1 - delta\<^sub>n / 2)\<close>. In
  \<open>SceneController\<close> the velocity is blended towards its target by the fixed fraction
  0.05 per frame, so after \<open>n\<close> frames it is \<open>target + (start - target) * (19/20)^n\<close>
  whatever the \<open>delta\<close>s are, and the camera advances in every tick by the new velocity
  times \<open>delta\<close>.
\<close>

theorem camera_smoothing_over_ticks:
  "x3 (camera_pos (SceneContent_run handData gs deltas c)) =
     x2 (directionVector handData) * 10
     + (x3 (camera_pos c) - x2 (directionVector handData) * 10)
       * prod_list (map (\<lambda>delta. 1 - delta * 0.5) deltas)
   \<and> y3 (camera_pos (SceneContent_run handData gs deltas c)) =
     (y2 (directionVector handData) * 5 + 10)
     + (y3 (camera_pos c) - (y2 (directionVector handData) * 5 + 10))
       * prod_list (map (\<lambda>delta. 1 - delta * 0.5) deltas)
   \<and> x3 (velocity (SceneController_run handData deltas s)) =
     x3 (SceneController_targetVelocity handData)
     + (x3 (velocity s) - x3 (SceneController_targetVelocity handData)) * (19/20) ^ length deltas
   \<and> z3 (velocity (SceneController_run handData deltas s)) =
     z3 (SceneController_targetVelocity handData)
     + (z3 (velocity s) - z3 (SceneController_targetVelocity handData)) * (19/20) ^ length deltas
   \<and> x3 (camera_position (SceneController_run handData deltas s)) =
     x3 (camera_position s)
     + (\<Sum>i<length deltas.
          (x3 (SceneController_targetVelocity handData)
           + (x3 (velocity s) - x3 (SceneController_targetVelocity handData)) * (19/20) ^ Suc i)
          * deltas ! i)
   \<and> z3 (camera_position (SceneController_run handData deltas s)) =
     z3 (camera_position s)
     + (\<Sum>i<length deltas.
          (z3 (SceneController_targetVelocity handData)
           + (z3 (velocity s) - z3 (SceneController_targetVelocity handData)) * (19/20) ^ Suc i)
          * deltas ! i)"
  using SceneContent_run_x [of handData gs deltas c] SceneContent_run_y [of handData gs deltas c]
    SceneController_run_velocity [of handData deltas s]
    SceneController_run_camera_x [of handData deltas s]
    SceneController_run_camera_z [of handData deltas s]
  by blast

text \<open>
  The claim as it stands fails in both versions: with the hand held at direction (1, 0)
  from the initial state, one tick of 2 s and two ticks of 1 s end at different camera
  positions.
\<close>

theorem camera_depends_on_the_partition:
  "sum_list [2 :: real] = sum_list [1, 1]
   \<and> x3 (camera_pos (SceneContent_run
        \<lparr>isDetected = True, position = \<lparr>x2 = 1, y2 = 1/2\<rparr>, directionVector = \<lparr>x2 = 1, y2 = 0\<rparr>\<rparr>
        NORMAL [2] SceneContent_init)) = 10
   \<and> x3 (camera_pos (SceneContent_run
        \<lparr>isDetected = True, position = \<lparr>x2 = 1, y2 = 1/2\<rparr>, directionVector = \<lparr>x2 = 1, y2 = 0\<rparr>\<rparr>
        NORMAL [1, 1] SceneContent_init)) = 15/2
   \<and> x3 (camera_position (SceneController_run
        \<lparr>isDetected = True, position = \<lparr>x2 = 1, y2 = 1/2\<rparr>, directionVector = \<lparr>x2 = 1, y2 = 0\<rparr>\<rparr>
        [2] SceneController_init)) = 3/2
   \<and> x3 (camera_position (SceneController_run
        \<lparr>isDetected = True, position = \<lparr>x2 = 1, y2 = 1/2\<rparr>, directionVector = \<lparr>x2 = 1, y2 = 0\<rparr>\<rparr>
        [1, 1] SceneController_init)) = 177/80"
proof -
  have mv: "SceneController_isMoving
      \<lparr>isDetected = True, position = \<lparr>x2 = 1, y2 = 1/2\<rparr>, directionVector = \<lparr>x2 = 1, y2 = 0\<rparr>\<rparr>"
    by (simp add: SceneController_isMoving_def)
  show ?thesis
    by (simp add: SceneContent_camera SceneContent_init_def SceneController_camera
        SceneController_velocity SceneController_targetVelocity_def mv SceneController_init_def)
qed

section \<open>The gesture accumulator\<close>

lemma SceneController_accumulator:
  "moveDurationRef (fst (SceneController_useFrame handData delta s)) =
     (if SceneController_isMoving handData
      then (if moveDurationRef s + delta > 10 then 0 else moveDurationRef s + delta)
      else max 0 (moveDurationRef s - delta * 2))"
  by (simp add: SceneController_useFrame_def Let_def split: prod.splits)

lemma SceneController_fired:
  "snd (SceneController_useFrame handData delta s) =
     (if SceneController_isMoving handData \<and> moveDurationRef s + delta > 10 then 1 else 0)"
  by (simp add: SceneController_useFrame_def Let_def split: prod.splits)

lemma SceneContent_accumulator:
  "movementRef (fst (SceneContent_useFrame handData gs delta s)) =
     (if isDetected handData
      then (if SceneContent_isMoving handData
            then (if movementRef s + delta > 10 \<and> gs = NORMAL then 0 else movementRef s + delta)
            else (if max 0 (movementRef s - delta) > 10 \<and> gs = NORMAL then 0
                  else max 0 (movementRef s - delta)))
      else movementRef s)"
  by (simp add: SceneContent_useFrame_def Let_def split: prod.splits)

lemma SceneContent_fired:
  "snd (SceneContent_useFrame handData gs delta s) =
     (if isDetected handData \<and> gs = NORMAL
         \<and> (if SceneContent_isMoving handData then movementRef s + delta
             else max 0 (movementRef s - delta)) > 10
      then 1 else 0)"
  by (simp add: SceneContent_useFrame_def Let_def split: prod.splits)

text \<open>
  C5, amended: after a tick with \<open>delta \<ge> 0\<close> that starts from a non-negative
  accumulator, the accumulator is non-negative, in both versions. In \<open>SceneController\<close>
  the trigger is called exactly once in a tick in which the accumulated time exceeds 10,
  and not at all otherwise; a tick that calls it leaves the accumulator at 0, and an
  accumulator that was at most 10 is at most 10 after the tick. In \<open>SceneContent\<close> the
  same holds for ticks with a detected hand in state NORMAL; in state STORM it never
  calls the trigger, and nothing is said there about the accumulator staying below 10.
\<close>

theorem accumulator_fires_and_resets:
  assumes "0 \<le> delta" and "0 \<le> moveDurationRef s" and "0 \<le> movementRef c"
  shows "0 \<le> moveDurationRef (fst (SceneController_useFrame handData delta s))
       \<and> snd (SceneController_useFrame handData delta s) =
           (if SceneController_isMoving handData \<and> moveDurationRef s + delta > 10 then 1 else 0)
       \<and> (snd (SceneController_useFrame handData delta s) = 1 \<longrightarrow>
            moveDurationRef (fst (SceneController_useFrame handData delta s)) = 0)
       \<and> (moveDurationRef s \<le> 10 \<longrightarrow>
            moveDurationRef (fst (SceneController_useFrame handData delta s)) \<le> 10)
       \<and> 0 \<le> movementRef (fst (SceneContent_useFrame handData gs delta c))
       \<and> (isDetected handData \<and> gs = NORMAL \<longrightarrow>
            snd (SceneContent_useFrame handData gs delta c) =
              (if (if SceneContent_isMoving handData then movementRef c + delta
                   else max 0 (movementRef c - delta)) > 10 then 1 else 0)
            \<and> (snd (SceneContent_useFrame handData gs delta c) = 1 \<longrightarrow>
                 movementRef (fst (SceneContent_useFrame handData gs delta c)) = 0)
            \<and> movementRef (fst (SceneContent_useFrame handData gs delta c)) \<le> 10)
       \<and> (gs = STORM \<longrightarrow> snd (SceneContent_useFrame handData gs delta c) = 0)"
proof -
  have a: "0 \<le> moveDurationRef (fst (SceneController_useFrame handData delta s))"
    unfolding SceneController_accumulator using assms(1,2) by simp
  have b: "snd (SceneController_useFrame handData delta s) = 1 \<longrightarrow>
            moveDurationRef (fst (SceneController_useFrame handData delta s)) = 0"
    unfolding SceneController_accumulator SceneController_fired by simp
  have c: "moveDurationRef s \<le> 10 \<longrightarrow>
            moveDurationRef (fst (SceneController_useFrame handData delta s)) \<le> 10"
    unfolding SceneController_accumulator using assms(1) by simp
  have d: "0 \<le> movementRef (fst (SceneContent_useFrame handData gs delta c))"
    unfolding SceneContent_accumulator using assms(1,3) by simp
  have e: "isDetected handData \<and> gs = NORMAL \<longrightarrow>
            snd (SceneContent_useFrame handData gs delta c) =
              (if (if SceneContent_isMoving handData then movementRef c + delta
                   else max 0 (movementRef c - delta)) > 10 then 1 else 0)
            \<and> (snd (SceneContent_useFrame handData gs delta c) = 1 \<longrightarrow>
                 movementRef (fst (SceneContent_useFrame handData gs delta c)) = 0)
            \<and> movementRef (fst (SceneContent_useFrame handData gs delta c)) \<le> 10"
    unfolding SceneContent_accumulator SceneContent_fired by auto
  have f: "gs = STORM \<longrightarrow> snd (SceneContent_useFrame handData gs delta c) = 0"
    unfolding SceneContent_fired by simp
  from a b c d e f SceneController_fired [of handData delta s] show ?thesis by blast
qed

theorem accumulator_fires_and_resets_witness:
  "(0::real) \<le> 1/2
   \<and> SceneController_isMoving
        \<lparr>isDetected = True, position = \<lparr>x2 = 1, y2 = 1/2\<rparr>, directionVector = \<lparr>x2 = 1, y2 = 0\<rparr>\<rparr>
   \<and> snd (SceneController_useFrame
        \<lparr>isDetected = True, position = \<lparr>x2 = 1, y2 = 1/2\<rparr>, directionVector = \<lparr>x2 = 1, y2 = 0\<rparr>\<rparr>
        (1/2) (SceneController_init\<lparr>moveDurationRef := 39/4\<rparr>)) = 1
   \<and> moveDurationRef (fst (SceneController_useFrame
        \<lparr>isDetected = True, position = \<lparr>x2 = 1, y2 = 1/2\<rparr>, directionVector = \<lparr>x2 = 1, y2 = 0\<rparr>\<rparr>
        (1/2) (SceneController_init\<lparr>moveDurationRef := 39/4\<rparr>))) = 0
   \<and> snd (SceneContent_useFrame
        \<lparr>isDetected = True, position = \<lparr>x2 = 1, y2 = 1/2\<rparr>, directionVector = \<lparr>x2 = 1, y2 = 0\<rparr>\<rparr>
        NORMAL (1/2) (SceneContent_init\<lparr>movementRef := 39/4\<rparr>)) = 1
   \<and> movementRef (fst (SceneContent_useFrame
        \<lparr>isDetected = True, position = \<lparr>x2 = 1, y2 = 1/2\<rparr>, directionVector = \<lparr>x2 = 1, y2 = 0\<rparr>\<rparr>
        NORMAL (1/2) (SceneContent_init\<lparr>movementRef := 39/4\<rparr>))) = 0
   \<and> snd (SceneContent_useFrame
        \<lparr>isDetected = True, position = \<lparr>x2 = 1, y2 = 1/2\<rparr>, directionVector = \<lparr>x2 = 1, y2 = 0\<rparr>\<rparr>
        STORM (1/2) (SceneContent_init\<lparr>movementRef := 39/4\<rparr>)) = 0"
proof -
  have mv: "SceneController_isMoving
      \<lparr>isDetected = True, position = \<lparr>x2 = 1, y2 = 1/2\<rparr>, directionVector = \<lparr>x2 = 1, y2 = 0\<rparr>\<rparr>"
    by (simp add: SceneController_isMoving_def)
  have mv_alt: "SceneContent_isMoving
      \<lparr>isDetected = True, position = \<lparr>x2 = 1, y2 = 1/2\<rparr>, directionVector = \<lparr>x2 = 1, y2 = 0\<rparr>\<rparr>"
    by (simp add: SceneContent_isMoving_def)
  have h1: "(0::real) \<le> 1/2" by simp
  have h2: "0 \<le> moveDurationRef (SceneController_init\<lparr>moveDurationRef := 39/4\<rparr>)" by simp
  have h3: "0 \<le> movementRef (SceneContent_init\<lparr>movementRef := 39/4\<rparr>)" by simp
  show ?thesis
    using accumulator_fires_and_resets [OF h1 h2 h3,
        of "\<lparr>isDetected = True, position = \<lparr>x2 = 1, y2 = 1/2\<rparr>, directionVector = \<lparr>x2 = 1, y2 = 0\<rparr>\<rparr>" NORMAL]
      accumulator_fires_and_resets [OF h1 h2 h3,
        of "\<lparr>isDetected = True, position = \<lparr>x2 = 1, y2 = 1/2\<rparr>, directionVector = \<lparr>x2 = 1, y2 = 0\<rparr>\<rparr>" STORM]
      mv mv_alt
    by simp
qed

text \<open>
  The claim as it stands fails in \<open>SceneContent\<close> during a storm: from 9.75 s a tick of
  0.5 s with a moving hand leaves the accumulator at 10.25 s, above the threshold, and
  calls no trigger.
\<close>

theorem accumulator_stays_above_threshold_in_storm:
  "SceneContent_isMoving
     \<lparr>isDetected = True, position = \<lparr>x2 = 1, y2 = 1/2\<rparr>, directionVector = \<lparr>x2 = 1, y2 = 0\<rparr>\<rparr>
   \<and> movementRef (fst (SceneContent_useFrame
        \<lparr>isDetected = True, position = \<lparr>x2 = 1, y2 = 1/2\<rparr>, directionVector = \<lparr>x2 = 1, y2 = 0\<rparr>\<rparr>
        STORM (1/2) (SceneContent_init\<lparr>movementRef := 39/4\<rparr>))) = 41/4
   \<and> (10::real) < 41/4
   \<and> snd (SceneContent_useFrame
        \<lparr>isDetected = True, position = \<lparr>x2 = 1, y2 = 1/2\<rparr>, directionVector = \<lparr>x2 = 1, y2 = 0\<rparr>\<rparr>
        STORM (1/2) (SceneContent_init\<lparr>movementRef := 39/4\<rparr>)) = 0"
  by (simp add: SceneContent_accumulator SceneContent_fired SceneContent_isMoving_def)

text \<open>
  C6, amended: on a tick with \<open>delta \<ge> 0\<close> in which the input is inside the deadzone,
  the accumulator falls to \<open>max 0 (m - 2 * delta)\<close> in \<open>SceneController\<close> (also when no
  hand is detected) and to at most \<open>max 0 (m - delta)\<close> in \<open>SceneContent\<close> when a hand
  is detected: it never grows, decays at least as fast as it accumulates, and is
  strictly smaller when it was positive and \<open>delta > 0\<close>. In \<open>SceneContent\<close> a tick with
  no hand detected leaves the accumulator as it is.
\<close>

theorem accumulator_decays_inside_deadzone:
  assumes "0 \<le> delta" and "0 \<le> moveDurationRef s" and "0 \<le> movementRef c"
  shows "(\<not> SceneController_isMoving handData \<longrightarrow>
            moveDurationRef (fst (SceneController_useFrame handData delta s)) =
              max 0 (moveDurationRef s - delta * 2)
            \<and> moveDurationRef (fst (SceneController_useFrame handData delta s)) \<le>
              max 0 (moveDurationRef s - delta)
            \<and> moveDurationRef (fst (SceneController_useFrame handData delta s)) \<le> moveDurationRef s
            \<and> (0 < delta \<and> 0 < moveDurationRef s \<longrightarrow>
                 moveDurationRef (fst (SceneController_useFrame handData delta s)) < moveDurationRef s))
       \<and> (isDetected handData \<and> \<not> SceneContent_isMoving handData \<longrightarrow>
            movementRef (fst (SceneContent_useFrame handData gs delta c)) \<le>
              max 0 (movementRef c - delta)
            \<and> movementRef (fst (SceneContent_useFrame handData gs delta c)) \<le> movementRef c
            \<and> (0 < delta \<and> 0 < movementRef c \<longrightarrow>
                 movementRef (fst (SceneContent_useFrame handData gs delta c)) < movementRef c))
       \<and> (\<not> isDetected handData \<longrightarrow>
            movementRef (fst (SceneContent_useFrame handData gs delta c)) = movementRef c)"
proof -
  have a: "\<not> SceneController_isMoving handData \<longrightarrow>
            moveDurationRef (fst (SceneController_useFrame handData delta s)) =
              max 0 (moveDurationRef s - delta * 2)
            \<and> moveDurationRef (fst (SceneController_useFrame handData delta s)) \<le>
              max 0 (moveDurationRef s - delta)
            \<and> moveDurationRef (fst (SceneController_useFrame handData delta s)) \<le> moveDurationRef s
            \<and> (0 < delta \<and> 0 < moveDurationRef s \<longrightarrow>
                 moveDurationRef (fst (SceneController_useFrame handData delta s)) < moveDurationRef s)"
    unfolding SceneController_accumulator using assms(1,2) by auto
  have b: "isDetected handData \<and> \<not> SceneContent_isMoving handData \<longrightarrow>
            movementRef (fst (SceneContent_useFrame handData gs delta c)) \<le>
              max 0 (movementRef c - delta)
            \<and> movementRef (fst (SceneContent_useFrame handData gs delta c)) \<le> movementRef c
            \<and> (0 < delta \<and> 0 < movementRef c \<longrightarrow>
                 movementRef (fst (SceneContent_useFrame handData gs delta c)) < movementRef c)"
    unfolding SceneContent_accumulator using assms(1,3) by auto
  have c: "\<not> isDetected handData \<longrightarrow>
            movementRef (fst (SceneContent_useFrame handData gs delta c)) = movementRef c"
    unfolding SceneContent_accumulator by simp
  from a b c show ?thesis by blast
qed

theorem accumulator_decays_inside_deadzone_witness:
  "(0::real) < 1
   \<and> \<not> SceneController_isMoving
        \<lparr>isDetected = False, position = \<lparr>x2 = 1/2, y2 = 1/2\<rparr>, directionVector = \<lparr>x2 = 0, y2 = 0\<rparr>\<rparr>
   \<and> moveDurationRef (fst (SceneController_useFrame
        \<lparr>isDetected = False, position = \<lparr>x2 = 1/2, y2 = 1/2\<rparr>, directionVector = \<lparr>x2 = 0, y2 = 0\<rparr>\<rparr>
        1 (SceneController_init\<lparr>moveDurationRef := 5\<rparr>))) = 3
   \<and> movementRef (fst (SceneContent_useFrame
        \<lparr>isDetected = False, position = \<lparr>x2 = 1/2, y2 = 1/2\<rparr>, directionVector = \<lparr>x2 = 0, y2 = 0\<rparr>\<rparr>
        NORMAL 1 (SceneContent_init\<lparr>movementRef := 5\<rparr>))) = 5
   \<and> \<not> SceneContent_isMoving
        \<lparr>isDetected = True, position = \<lparr>x2 = 9/16, y2 = 1/2\<rparr>, directionVector = \<lparr>x2 = 1/8, y2 = 0\<rparr>\<rparr>
   \<and> movementRef (fst (SceneContent_useFrame
        \<lparr>isDetected = True, position = \<lparr>x2 = 9/16, y2 = 1/2\<rparr>, directionVector = \<lparr>x2 = 1/8, y2 = 0\<rparr>\<rparr>
        NORMAL 1 (SceneContent_init\<lparr>movementRef := 5\<rparr>))) \<le> 4"
proof -
  have nm: "\<not> SceneController_isMoving
      \<lparr>isDetected = False, position = \<lparr>x2 = 1/2, y2 = 1/2\<rparr>, directionVector = \<lparr>x2 = 0, y2 = 0\<rparr>\<rparr>"
    by (simp add: SceneController_isMoving_def)
  have nm_alt: "\<not> SceneContent_isMoving
      \<lparr>isDetected = True, position = \<lparr>x2 = 9/16, y2 = 1/2\<rparr>, directionVector = \<lparr>x2 = 1/8, y2 = 0\<rparr>\<rparr>"
    by (simp add: SceneContent_isMoving_def)
  have h1: "(0::real) \<le> 1" by simp
  have h2: "0 \<le> moveDurationRef (SceneController_init\<lparr>moveDurationRef := 5\<rparr>)" by simp
  have h3: "0 \<le> movementRef (SceneContent_init\<lparr>movementRef := 5\<rparr>)" by simp
  show ?thesis
    using accumulator_decays_inside_deadzone [OF h1 h2 h3,
        of "\<lparr>isDetected = False, position = \<lparr>x2 = 1/2, y2 = 1/2\<rparr>, directionVector = \<lparr>x2 = 0, y2 = 0\<rparr>\<rparr>" NORMAL]
      accumulator_decays_inside_deadzone [OF h1 h2 h3,
        of "\<lparr>isDetected = True, position = \<lparr>x2 = 9/16, y2 = 1/2\<rparr>, directionVector = \<lparr>x2 = 1/8, y2 = 0\<rparr>\<rparr>" NORMAL]
      nm nm_alt
    by simp
qed

text \<open>
  The claim as it stands fails in \<open>SceneContent\<close> when no hand is detected: a tick of
  1 s leaves an accumulator of 5 s at 5 s.
\<close>

theorem accumulator_frozen_without_hand:
  "\<not> isDetected
       \<lparr>isDetected = False, position = \<lparr>x2 = 1/2, y2 = 1/2\<rparr>, directionVector = \<lparr>x2 = 0, y2 = 0\<rparr>\<rparr>
   \<and> (0::real) < 1 \<and> (0::real) < 5
   \<and> movementRef (SceneContent_init\<lparr>movementRef := 5\<rparr>) = 5
   \<and> movementRef (fst (SceneContent_useFrame
        \<lparr>isDetected = False, position = \<lparr>x2 = 1/2, y2 = 1/2\<rparr>, directionVector = \<lparr>x2 = 0, y2 = 0\<rparr>\<rparr>
        NORMAL 1 (SceneContent_init\<lparr>movementRef := 5\<rparr>))) = 5"
  by (simp add: SceneContent_accumulator)

section \<open>Lightning: the next flash and the flash intensity\<close>

lemma float64_int: "\<bar>m\<bar> < 2 ^ 53 \<Longrightarrow> float64 (of_int m) = of_int m"
  using float64_exact [of m 0] by simp

lemma float64_halves: "\<bar>m\<bar> < 2 ^ 53 \<Longrightarrow> float64 (of_int m / 2) = of_int m / 2"
  using float64_exact [of m 1] by simp

lemma float64_quarters: "\<bar>m\<bar> < 2 ^ 53 \<Longrightarrow> float64 (of_int m / 4) = of_int m / 4"
  using float64_exact [of m 2] by simp

lemma float64_numerals:
  "float64 2 = 2" "float64 5 = 5" "float64 (5/2) = 5/2" "float64 (9/2) = 9/2"
  "float64 (5/4) = 5/4" "float64 (9/4) = 9/4" "float64 (11/4) = 11/4"
  "float64 (13/4) = 13/4" "float64 (15/4) = 15/4"
  using float64_int [of 2] float64_int [of 5] float64_halves [of 5] float64_halves [of 9]
    float64_quarters [of 5] float64_quarters [of 9] float64_quarters [of 11]
    float64_quarters [of 13] float64_quarters [of 15]
  by simp_all

lemma LightningSystem_nextFlashTime:
  "nextFlashTime (LightningSystem_useFrame enabled elapsedTime delta r1 r2 r3 s) =
     (if enabled \<and> LightningSystem_flashes elapsedTime s
      then float64 (float64 (elapsedTime + float64 (r3 * 2.5)) + 0.5) else nextFlashTime s)"
  by (simp add: LightningSystem_useFrame_def Let_def)

lemma LightningSystem_flashIntensity:
  "flashIntensity (LightningSystem_useFrame enabled elapsedTime delta r1 r2 r3 s) =
     (if \<not> enabled then 0
      else if LightningSystem_flashes elapsedTime s then 2 * (1 - delta * 5)
      else flashIntensity s * (1 - delta * 5))"
  by (simp add: LightningSystem_useFrame_def Let_def lerp_def)

lemma next_flash_sum_bounds:
  assumes "0 \<le> r" and "r < 1" and "0 \<le> t" and "float64 t = t"
  shows "float64 (t + 0.5) \<le> float64 (float64 (t + float64 (r * 2.5)) + 0.5)"
    and "float64 (float64 (t + float64 (r * 2.5)) + 0.5) \<le> float64 (float64 (t + 2.5) + 0.5)"
proof -
  let ?a = "float64 (r * 2.5)"
  let ?b = "float64 (t + ?a)"
  have a0: "0 \<le> ?a"
    using float64_mono [of 0 "r * 2.5"] assms(1) by (simp add: float64_0)
  have "?a \<le> float64 2.5"
    using assms(1,2) by (intro float64_mono) simp_all
  then have a1: "?a \<le> 2.5"
    using float64_halves [of 5] by simp
  have "float64 t \<le> ?b"
    using assms(3) a0 by (intro float64_mono) simp_all
  then have b0: "t \<le> ?b"
    unfolding assms(4) .
  have b1: "?b \<le> float64 (t + 2.5)"
    using assms(3) a0 a1 by (intro float64_mono) simp_all
  show "float64 (t + 0.5) \<le> float64 (?b + 0.5)"
    using assms(3) b0 by (intro float64_mono) simp_all
  show "float64 (?b + 0.5) \<le> float64 (float64 (t + 2.5) + 0.5)"
    using assms(3) b0 b1 by (intro float64_mono) simp_all
qed

lemma nextDelay_alt_bounds:
  assumes "0 \<le> r" and "r < 1"
  shows "1000 \<le> triggerLightning_nextDelay_alt r" and "triggerLightning_nextDelay_alt r \<le> 3000"
proof -
  let ?c = "float64 (r * 2000)"
  have c0: "0 \<le> ?c"
    using float64_mono [of 0 "r * 2000"] assms(1) by (simp add: float64_0)
  have "?c \<le> float64 2000"
    using assms by (intro float64_mono) simp_all
  then have c1: "?c \<le> 2000"
    using float64_int [of 2000] by simp
  have "float64 1000 \<le> float64 (?c + 1000)"
    using c0 by (intro float64_mono) simp_all
  then show "1000 \<le> triggerLightning_nextDelay_alt r"
    unfolding triggerLightning_nextDelay_alt_def using float64_int [of 1000] by simp
  have "float64 (?c + 1000) \<le> float64 3000"
    using c0 c1 by (intro float64_mono) simp_all
  then show "triggerLightning_nextDelay_alt r \<le> 3000"
    unfolding triggerLightning_nextDelay_alt_def using float64_int [of 3000] by simp
qed

text \<open>
  C8, amended: at a flash event the next flash time is set to a value within the closed
  interval from \<open>now + minDelay\<close> to \<open>now + maxDelay\<close>: at least the double \<open>now + 0.5\<close>
  and at most the double \<open>now + 2.5 + 0.5\<close>, which is 3 seconds after the current clock
  time, and both ends can be reached. In the second version the next delay lies within
  \<open>[1000, 3000]\<close> milliseconds.
\<close>

theorem next_flash_within_delay_bounds:
  assumes "0 \<le> r3" and "r3 < 1" and "0 \<le> elapsedTime" and "float64 elapsedTime = elapsedTime"
    and "LightningSystem_flashes elapsedTime s"
  shows "float64 (elapsedTime + 0.5)
           \<le> nextFlashTime (LightningSystem_useFrame True elapsedTime delta r1 r2 r3 s)
       \<and> nextFlashTime (LightningSystem_useFrame True elapsedTime delta r1 r2 r3 s)
           \<le> float64 (float64 (elapsedTime + 2.5) + 0.5)
       \<and> 1000 \<le> triggerLightning_nextDelay_alt r3
       \<and> triggerLightning_nextDelay_alt r3 \<le> 3000"
proof -
  have n: "nextFlashTime (LightningSystem_useFrame True elapsedTime delta r1 r2 r3 s) =
      float64 (float64 (elapsedTime + float64 (r3 * 2.5)) + 0.5)"
    unfolding LightningSystem_nextFlashTime using assms(5) by simp
  show ?thesis
    unfolding n
    using next_flash_sum_bounds [OF assms(1-4)] nextDelay_alt_bounds [OF assms(1,2)]
    by blast
qed

theorem next_flash_within_delay_bounds_witness:
  "(0::real) \<le> 1/2 \<and> (1/2::real) < 1 \<and> (0::real) \<le> 2 \<and> float64 2 = 2
   \<and> LightningSystem_flashes 2 LightningSystem_init
   \<and> float64 (2 + 0.5) = 5/2
   \<and> nextFlashTime (LightningSystem_useFrame True 2 (1/60) (1/2) (1/2) (1/2) LightningSystem_init) = 15/4
   \<and> float64 (float64 (2 + 2.5) + 0.5) = 5
   \<and> triggerLightning_nextDelay_alt (1/2) = 2000"
proof -
  have h1: "(0::real) \<le> 1/2" and h2: "(1/2::real) < 1" and h3: "(0::real) \<le> 2" by simp_all
  have h4: "float64 2 = 2" by (rule float64_numerals)
  have h5: "LightningSystem_flashes 2 LightningSystem_init"
    by (simp add: LightningSystem_flashes_def LightningSystem_init_def)
  have s1: "(2::real) + 0.5 = 5/2" and s2: "(2::real) + 2.5 = 9/2" and s3: "(9/2::real) + 0.5 = 5"
    and s4: "(1/2::real) * 2.5 = 5/4" and s5: "(2::real) + 5/4 = 13/4"
    and s6: "(13/4::real) + 0.5 = 15/4"
    by simp_all
  have lo: "float64 (2 + 0.5) = 5/2"
    by (simp only: s1 float64_numerals)
  have hi: "float64 (float64 (2 + 2.5) + 0.5) = 5"
    by (simp only: s2 s3 float64_numerals)
  have "float64 (float64 (2 + float64 (1/2 * 2.5)) + 0.5) = 15/4"
    by (simp only: s4 s5 s6 float64_numerals)
  then have nx: "nextFlashTime
      (LightningSystem_useFrame True 2 (1/60) (1/2) (1/2) (1/2) LightningSystem_init) = 15/4"
    unfolding LightningSystem_nextFlashTime using h5 by simp
  have al: "triggerLightning_nextDelay_alt (1/2) = 2000"
    unfolding triggerLightning_nextDelay_alt_def
    using float64_int [of 1000] float64_int [of 2000] by simp
  note T = next_flash_within_delay_bounds [OF h1 h2 h3 h4 h5, of "1/60" "1/2" "1/2"]
  from T h1 h2 h3 h4 h5 lo nx hi al show ?thesis by blast
qed

text \<open>
  The claim as it stands fails at both ends. At clock time 2, a flash for which
  \<^verbatim>\<open>Math.random()\<close> returns 0 schedules the next one at 2.5, exactly 0.5 s later, and
  one for which it returns \<open>1 - 2^-52\<close> schedules it at 5, exactly 3 s later: the
  product rounds to \<open>2.5 - 2^-51\<close> and the sum \<open>4.5 - 2^-51\<close> lies halfway between
  two doubles and rounds to 4.5.
\<close>

theorem next_flash_at_the_ends:
  "LightningSystem_flashes 2 LightningSystem_init
   \<and> nextFlashTime (LightningSystem_useFrame True 2 (1/60) (1/2) (1/2) 0 LightningSystem_init)
       = 2 + 1/2
   \<and> (0::real) \<le> 1 - 1 / 2 ^ 52 \<and> (1::real) - 1 / 2 ^ 52 < 1
   \<and> nextFlashTime (LightningSystem_useFrame True 2 (1/60) (1/2) (1/2) (1 - 1 / 2 ^ 52)
         LightningSystem_init) = 2 + 3"
proof -
  have f: "LightningSystem_flashes 2 LightningSystem_init"
    by (simp add: LightningSystem_flashes_def LightningSystem_init_def)
  have z1: "(0::real) * 2.5 = 0" and z2: "(2::real) + 0 = 2" and z3: "(2::real) + 0.5 = 5/2"
    by simp_all
  have "float64 (float64 (2 + float64 (0 * 2.5)) + 0.5) = 5/2"
    by (simp only: z1 z2 z3 float64_0 float64_numerals)
  then have lo: "nextFlashTime
      (LightningSystem_useFrame True 2 (1/60) (1/2) (1/2) 0 LightningSystem_init) = 2 + 1/2"
    unfolding LightningSystem_nextFlashTime using f by simp
  have p: "float64 ((1 - 1 / 2 ^ 52) * 2.5) = 5/2 - 1 / 2 ^ 51"
    unfolding float64_def
    by (subst binary_round_in_binade [of 1 _ _ 51]) (simp_all add: roundTiesToEven_def)
  have q: "float64 (2 + (5/2 - 1 / 2 ^ 51)) = 9/2"
    unfolding float64_def
    by (subst binary_round_in_binade [of 2 _ _ 50]) (simp_all add: roundTiesToEven_def)
  have "(9/2::real) + 0.5 = 5" by simp
  then have r: "float64 (9/2 + 0.5) = 5"
    by (simp only: float64_numerals)
  have hi: "nextFlashTime (LightningSystem_useFrame True 2 (1/60) (1/2) (1/2) (1 - 1 / 2 ^ 52)
         LightningSystem_init) = 2 + 3"
    unfolding LightningSystem_nextFlashTime p q r using f by simp
  from f lo hi show ?thesis by simp
qed

lemma flashIntensity_not_enabled:
  "flashIntensity (LightningSystem_useFrame False elapsedTime delta r1 r2 r3 s) = 0"
  unfolding LightningSystem_flashIntensity by simp

lemma flashIntensity_at_flash:
  "LightningSystem_flashes elapsedTime s \<Longrightarrow>
   flashIntensity (LightningSystem_useFrame True elapsedTime delta r1 r2 r3 s) = lerp 2 0 (delta * 5)"
  unfolding LightningSystem_flashIntensity by (simp add: lerp_def)

lemma flashIntensity_does_not_increase:
  assumes "0 \<le> delta" and "0 \<le> flashIntensity s" and "\<not> LightningSystem_flashes elapsedTime s"
  shows "flashIntensity (LightningSystem_useFrame True elapsedTime delta r1 r2 r3 s)
           \<le> flashIntensity s"
proof -
  have "1 - delta * 5 \<le> 1" using assms(1) by simp
  then have "flashIntensity s * (1 - delta * 5) \<le> flashIntensity s * 1"
    by (rule mult_left_mono [OF _ assms(2)])
  then show ?thesis
    unfolding LightningSystem_flashIntensity using assms(3) by simp
qed

lemma flashIntensity_nonneg_in_short_tick:
  assumes "0 \<le> delta" and "delta \<le> 1/5" and "0 \<le> flashIntensity s"
  shows "0 \<le> flashIntensity (LightningSystem_useFrame enabled elapsedTime delta r1 r2 r3 s)"
proof -
  have k: "0 \<le> 1 - delta * 5" using assms(2) by simp
  have "0 \<le> flashIntensity s * (1 - delta * 5)"
    by (rule mult_nonneg_nonneg [OF assms(3) k])
  then show ?thesis
    unfolding LightningSystem_flashIntensity using k by simp
qed

text \<open>
  C9: the flash intensity is to be never negative after a tick and never to increase
  between flashes. The code decays it with \<open>lerp(intensity, 0, delta * 5)\<close> and no clamp,
  which keeps both only while \<open>delta \<le> 0.2\<close>. On the first frame of a storm, at clock
  time 1 and with \<open>delta = 0.5\<close>, the flash sets the intensity to the peak 2 and the
  decay of the same frame takes it to -3, below zero; the next frame, 0.1 s later and
  with no flash, raises it to -1.5.
\<close>

theorem flash_intensity_goes_negative:
  "LightningSystem_flashes 1 LightningSystem_init
   \<and> flashIntensity (LightningSystem_useFrame True 1 (1/2) (1/2) (1/2) (1/2) LightningSystem_init) = - 3
   \<and> \<not> LightningSystem_flashes (11/10)
         (LightningSystem_useFrame True 1 (1/2) (1/2) (1/2) (1/2) LightningSystem_init)
   \<and> flashIntensity (LightningSystem_useFrame True (11/10) (1/10) (1/2) (1/2) (1/2)
        (LightningSystem_useFrame True 1 (1/2) (1/2) (1/2) (1/2) LightningSystem_init)) = - (3/2)"
proof -
  have f: "LightningSystem_flashes 1 LightningSystem_init"
    by (simp add: LightningSystem_flashes_def LightningSystem_init_def)
  have i1: "flashIntensity (LightningSystem_useFrame True 1 (1/2) (1/2) (1/2) (1/2) LightningSystem_init) = - 3"
    unfolding LightningSystem_flashIntensity using f by simp
  have s1: "(1/2::real) * 2.5 = 5/4" and s2: "(1::real) + 5/4 = 9/4"
    and s3: "(9/4::real) + 0.5 = 11/4"
    by simp_all
  have "float64 (float64 (1 + float64 (1/2 * 2.5)) + 0.5) = 11/4"
    by (simp only: s1 s2 s3 float64_numerals)
  then have n1: "nextFlashTime (LightningSystem_useFrame True 1 (1/2) (1/2) (1/2) (1/2) LightningSystem_init) = 11/4"
    unfolding LightningSystem_nextFlashTime using f by simp
  have nf: "\<not> LightningSystem_flashes (11/10)
         (LightningSystem_useFrame True 1 (1/2) (1/2) (1/2) (1/2) LightningSystem_init)"
    unfolding LightningSystem_flashes_def n1 by simp
  have i2: "flashIntensity (LightningSystem_useFrame True (11/10) (1/10) (1/2) (1/2) (1/2)
        (LightningSystem_useFrame True 1 (1/2) (1/2) (1/2) (1/2) LightningSystem_init)) = - (3/2)"
    unfolding LightningSystem_flashIntensity [of True "11/10"] using nf i1 by simp
  from f i1 nf i2 show ?thesis by simp
qed

section \<open>The storm and its timeouts\<close>

lemma triggerStorm_in_STORM: "gameState a = STORM \<Longrightarrow> triggerStorm a = a"
  by (simp add: triggerStorm_def)

lemma funpow_triggerStorm_in_STORM: "gameState a = STORM \<Longrightarrow> (triggerStorm ^^ n) a = a"
  by (induction n) (simp_all add: triggerStorm_in_STORM)

lemma fold_run_timeout_clock:
  "clock (fold (\<lambda>p. run_timeout (snd p)) due a) = clock a"
proof (induction due arbitrary: a)
  case Nil
  show ?case by simp
next
  case (Cons p due)
  show ?case
    by (cases "snd p") (simp_all add: Cons.IH setTimeout_def)
qed

lemma fold_run_timeout_gameState:
  "gameState (fold (\<lambda>p. run_timeout (snd p)) due a) =
     (if EndStorm \<in> snd ` set due then NORMAL else gameState a)"
proof (induction due arbitrary: a)
  case Nil
  show ?case by simp
next
  case (Cons p due)
  show ?case
    by (cases "snd p") (auto simp add: Cons.IH setTimeout_def)
qed

lemma fold_run_timeout_EndStorm:
  "{p \<in> set (timeouts (fold (\<lambda>p. run_timeout (snd p)) due a)). snd p = EndStorm} =
   {p \<in> set (timeouts a). snd p = EndStorm}"
proof (induction due arbitrary: a)
  case Nil
  show ?case by simp
next
  case (Cons p due)
  show ?case
    by (cases "snd p") (auto simp add: Cons.IH setTimeout_def)
qed

lemma tick_ms_clock: "clock (tick_ms a) = clock a + 1"
  by (simp add: tick_ms_def Let_def fold_run_timeout_clock)

lemma tick_ms_gameState:
  "gameState (tick_ms a) =
     (if EndStorm \<in> snd ` {p \<in> set (timeouts a). fst p \<le> clock a + 1} then NORMAL
      else gameState a)"
  by (simp add: tick_ms_def Let_def fold_run_timeout_gameState)

lemma tick_ms_EndStorm:
  "{p \<in> set (timeouts (tick_ms a)). snd p = EndStorm} =
   {p \<in> set (timeouts a). snd p = EndStorm \<and> \<not> fst p \<le> clock a + 1}"
  by (auto simp add: tick_ms_def Let_def fold_run_timeout_EndStorm)

lemma calm_EndStorm: "calm a = (gameState a = NORMAL \<and> {p \<in> set (timeouts a). snd p = EndStorm} = {})"
  unfolding calm_def by force

lemma calm_tick_ms: "calm a \<Longrightarrow> calm (tick_ms a)"
  unfolding calm_EndStorm tick_ms_EndStorm tick_ms_gameState by auto

lemma calm_advance: "calm a \<Longrightarrow> calm (advance n a)"
  by (induction n arbitrary: a) (simp_all add: calm_tick_ms)

lemma storm_until_triggerStorm: "calm a \<Longrightarrow> storm_until (clock a + 10000) (triggerStorm a)"
  by (auto simp add: calm_def storm_until_def triggerStorm_def setTimeout_def image_iff)

lemma storm_until_tick_ms:
  assumes "storm_until e a" and "clock a + 1 < e"
  shows "storm_until e (tick_ms a)"
proof -
  have E: "fst ` {p \<in> set (timeouts a). snd p = EndStorm} = {e}"
    and m: "(e, EndStorm) \<in> set (timeouts a)" and g: "gameState a = STORM"
    using assms(1) by (simp_all add: storm_until_def)
  have all_e: "fst p = e" if "p \<in> set (timeouts a)" "snd p = EndStorm" for p
    using E that by blast
  have same: "{p \<in> set (timeouts (tick_ms a)). snd p = EndStorm} =
      {p \<in> set (timeouts a). snd p = EndStorm}"
    unfolding tick_ms_EndStorm using all_e assms(2) by auto
  have "EndStorm \<notin> snd ` {p \<in> set (timeouts a). fst p \<le> clock a + 1}"
    using all_e assms(2) by force
  then have g': "gameState (tick_ms a) = STORM"
    unfolding tick_ms_gameState using g by simp
  have "(e, EndStorm) \<in> {p \<in> set (timeouts a). snd p = EndStorm}"
    using m by simp
  then have m': "(e, EndStorm) \<in> set (timeouts (tick_ms a))"
    unfolding same [symmetric] by simp
  show ?thesis
    unfolding storm_until_def same tick_ms_clock using g' m' E assms(2) by simp
qed

lemma storm_until_expires:
  assumes "storm_until e a" and "clock a + 1 = e"
  shows "calm (tick_ms a)"
proof -
  have E: "fst ` {p \<in> set (timeouts a). snd p = EndStorm} = {e}"
    and m: "(e, EndStorm) \<in> set (timeouts a)"
    using assms(1) by (simp_all add: storm_until_def)
  have all_e: "fst p = e" if "p \<in> set (timeouts a)" "snd p = EndStorm" for p
    using E that by blast
  have "{p \<in> set (timeouts (tick_ms a)). snd p = EndStorm} = {}"
    unfolding tick_ms_EndStorm using all_e assms(2) by auto
  moreover have "EndStorm \<in> snd ` {p \<in> set (timeouts a). fst p \<le> clock a + 1}"
    using m assms(2) by force
  then have "gameState (tick_ms a) = NORMAL"
    unfolding tick_ms_gameState by simp
  ultimately show ?thesis
    unfolding calm_EndStorm by simp
qed

lemma storm_until_run_events:
  assumes "storm_until e a" and "clock a + length (filter (\<lambda>ev. ev = Ms) evs) < e"
  shows "storm_until e (run_events evs a)
       \<and> clock (run_events evs a) = clock a + length (filter (\<lambda>ev. ev = Ms) evs)"
  using assms
proof (induction evs arbitrary: a)
  case Nil
  then show ?case by simp
next
  case (Cons ev evs)
  show ?case
  proof (cases ev)
    case Ms
    have lt: "clock a + 1 < e" using Cons.prems(2) Ms by simp
    have s: "storm_until e (tick_ms a)"
      by (rule storm_until_tick_ms [OF Cons.prems(1) lt])
    have "clock (tick_ms a) + length (filter (\<lambda>ev. ev = Ms) evs) < e"
      using Cons.prems(2) Ms by (simp add: tick_ms_clock)
    from Cons.IH [OF s this] show ?thesis
      using Ms by (simp add: tick_ms_clock)
  next
    case Trigger
    have "triggerStorm a = a"
      using Cons.prems(1) by (simp add: storm_until_def triggerStorm_in_STORM)
    then show ?thesis
      using Cons.IH [OF Cons.prems(1)] Cons.prems(2) Trigger by simp
  qed
qed

lemma storm_until_advance:
  assumes "storm_until e a" and "e \<le> clock a + n"
  shows "calm (advance n a)"
  using assms
proof (induction n arbitrary: a)
  case 0
  then show ?case by (simp add: storm_until_def)
next
  case (Suc n)
  have "clock a < e" using Suc.prems(1) by (simp add: storm_until_def)
  then consider (before) "clock a + 1 < e" | (now) "clock a + 1 = e" by linarith
  then show ?case
  proof cases
    case before
    have "e \<le> clock (tick_ms a) + n" using Suc.prems(2) by (simp add: tick_ms_clock)
    from Suc.IH [OF storm_until_tick_ms [OF Suc.prems(1) before] this]
    show ?thesis by simp
  next
    case now
    show ?thesis
      using calm_advance [OF storm_until_expires [OF Suc.prems(1) now]] by simp
  qed
qed

lemma calm_App_init: "calm App_init"
  by (simp add: calm_def App_init_def)

lemma storm_until_or_calm_tick_ms:
  assumes "storm_until e a"
  shows "storm_until e (tick_ms a) \<or> calm (tick_ms a)"
proof -
  have "clock a < e" using assms by (simp add: storm_until_def)
  then consider (before) "clock a + 1 < e" | (now) "clock a + 1 = e" by linarith
  then show ?thesis
  proof cases
    case before
    then show ?thesis using storm_until_tick_ms [OF assms] by simp
  next
    case now
    then show ?thesis using storm_until_expires [OF assms] by simp
  qed
qed

lemma calm_or_storm_App_event:
  assumes "calm a \<or> (\<exists>e. storm_until e a)"
  shows "calm (App_event ev a) \<or> (\<exists>e. storm_until e (App_event ev a))"
proof (cases ev)
  case Ms
  then show ?thesis
    using assms calm_tick_ms storm_until_or_calm_tick_ms by auto
next
  case Trigger
  show ?thesis
  proof (cases "calm a")
    case True
    then show ?thesis
      using storm_until_triggerStorm [OF True] Trigger by auto
  next
    case False
    then obtain e where e: "storm_until e a" using assms by blast
    then have "triggerStorm a = a"
      by (simp add: storm_until_def triggerStorm_in_STORM)
    then show ?thesis using e Trigger by auto
  qed
qed

lemma calm_or_storm_run_events:
  "calm a \<or> (\<exists>e. storm_until e a) \<Longrightarrow>
   calm (run_events evs a) \<or> (\<exists>e. storm_until e (run_events evs a))"
proof (induction evs arbitrary: a)
  case Nil
  then show ?case by simp
next
  case (Cons ev evs)
  show ?case
    using Cons.IH [OF calm_or_storm_App_event [OF Cons.prems]] by simp
qed

lemma reachable_NORMAL_is_calm:
  assumes "gameState (run_events evs App_init) = NORMAL"
  shows "calm (run_events evs App_init)"
proof -
  have "calm (run_events evs App_init) \<or> (\<exists>e. storm_until e (run_events evs App_init))"
    by (rule calm_or_storm_run_events) (simp add: calm_App_init)
  then show ?thesis
    using assms by (auto simp add: storm_until_def)
qed

text \<open>
  C4: let the application, started and run through any milliseconds and triggers, be in
  state NORMAL. Then \<open>triggerStorm\<close> enters STORM; the state is STORM as long as fewer
  than 10000 ms have passed since, whatever triggers arrive in between, and it is NORMAL
  once 10000 ms or more have passed, for as long as no new trigger arrives.
\<close>

theorem storm_lasts_ten_seconds:
  assumes "gameState (run_events before App_init) = NORMAL"
  shows "gameState (triggerStorm (run_events before App_init)) = STORM
       \<and> (\<forall>evs. length (filter (\<lambda>ev. ev = Ms) evs) < 10000 \<longrightarrow>
            gameState (run_events evs (triggerStorm (run_events before App_init))) = STORM)
       \<and> (\<forall>evs n. length (filter (\<lambda>ev. ev = Ms) evs) < 10000
              \<and> 10000 \<le> length (filter (\<lambda>ev. ev = Ms) evs) + n \<longrightarrow>
            gameState (advance n (run_events evs (triggerStorm (run_events before App_init))))
              = NORMAL)"
proof -
  define a where "a = run_events before App_init"
  let ?e = "clock a + 10000"
  have "calm a"
    unfolding a_def by (rule reachable_NORMAL_is_calm [OF assms])
  then have s: "storm_until ?e (triggerStorm a)"
    by (rule storm_until_triggerStorm)
  have c: "clock (triggerStorm a) = clock a"
    by (simp add: triggerStorm_def setTimeout_def)
  have during: "storm_until ?e (run_events evs (triggerStorm a))
      \<and> clock (run_events evs (triggerStorm a)) = clock a + length (filter (\<lambda>ev. ev = Ms) evs)"
    if "length (filter (\<lambda>ev. ev = Ms) evs) < 10000" for evs
    using storm_until_run_events [OF s, of evs] that unfolding c by simp
  have after: "gameState (advance n (run_events evs (triggerStorm a))) = NORMAL"
    if "length (filter (\<lambda>ev. ev = Ms) evs) < 10000"
      and "10000 \<le> length (filter (\<lambda>ev. ev = Ms) evs) + n" for evs n
  proof -
    have "?e \<le> clock (run_events evs (triggerStorm a)) + n"
      using during [OF that(1)] that(2) by simp
    from storm_until_advance [OF conjunct1 [OF during [OF that(1)]] this]
    show ?thesis by (simp add: calm_def)
  qed
  show ?thesis
    unfolding a_def [symmetric] using s during after by (simp add: storm_until_def)
qed

theorem storm_lasts_ten_seconds_witness:
  "gameState (run_events [Ms, Ms] App_init) = NORMAL
   \<and> length (filter (\<lambda>ev. ev = Ms) (replicate 9999 Ms @ [Trigger])) < 10000
   \<and> gameState (run_events (replicate 9999 Ms @ [Trigger])
        (triggerStorm (run_events [Ms, Ms] App_init))) = STORM
   \<and> 10000 \<le> length (filter (\<lambda>ev. ev = Ms) (replicate 9999 Ms @ [Trigger])) + 1
   \<and> gameState (advance 1 (run_events (replicate 9999 Ms @ [Trigger])
        (triggerStorm (run_events [Ms, Ms] App_init)))) = NORMAL"
proof -
  let ?evs = "replicate 9999 Ms @ [Trigger]"
  have N: "gameState (run_events [Ms, Ms] App_init) = NORMAL"
    by (simp add: tick_ms_def App_init_def)
  have n: "length (filter (\<lambda>ev. ev = Ms) ?evs) = 9999"
    by simp
  note T = storm_lasts_ten_seconds [OF N]
  have lt: "length (filter (\<lambda>ev. ev = Ms) ?evs) < 10000"
    unfolding n by simp
  have ge: "10000 \<le> length (filter (\<lambda>ev. ev = Ms) ?evs) + 1"
    unfolding n by simp
  have A: "gameState (run_events ?evs (triggerStorm (run_events [Ms, Ms] App_init))) = STORM"
    using T [THEN conjunct2, THEN conjunct1, rule_format, of ?evs] lt by blast
  have B: "gameState (advance 1 (run_events ?evs (triggerStorm (run_events [Ms, Ms] App_init))))
      = NORMAL"
    using T [THEN conjunct2, THEN conjunct2, rule_format, of ?evs 1] lt ge by blast
  from N lt A ge B show ?thesis by blast
qed

text \<open>
  C3, amended: while the state is STORM, a trigger that \<open>triggerStorm\<close> receives changes
  nothing: not the state, not the message and not the pending timeouts, so it neither
  enters the storm again nor restarts its timer; \<open>SceneContent\<close> calls no trigger at all,
  and a frame of \<open>SceneController\<close> leaves the application as it is whether it calls the
  trigger or not. The state leaves STORM only in a millisecond in which the end of the
  storm falls due, never by a trigger.
\<close>

theorem triggers_are_ignored_in_storm:
  assumes "gameState a = STORM"
  shows "triggerStorm a = a
       \<and> snd (SceneContent_useFrame handData (gameState a) delta c) = 0
       \<and> fst (OceanEnvironment_frame handData delta (a, s)) = a
       \<and> (\<forall>ev. gameState (App_event ev a) = NORMAL \<longrightarrow>
            ev = Ms \<and> EndStorm \<in> snd ` {p \<in> set (timeouts a). fst p \<le> clock a + 1})"
proof -
  have t: "triggerStorm a = a"
    by (rule triggerStorm_in_STORM [OF assms])
  have q: "snd (SceneContent_useFrame handData (gameState a) delta c) = 0"
    unfolding SceneContent_fired using assms by simp
  have f: "fst (OceanEnvironment_frame handData delta (a, s)) = a"
    by (simp add: OceanEnvironment_frame_def funpow_triggerStorm_in_STORM [OF assms]
        split: prod.splits)
  have e: "ev = Ms \<and> EndStorm \<in> snd ` {p \<in> set (timeouts a). fst p \<le> clock a + 1}"
    if "gameState (App_event ev a) = NORMAL" for ev
  proof (cases ev)
    case Ms
    then show ?thesis
      using that assms unfolding Ms App_event.simps tick_ms_gameState
      by (simp split: if_splits)
  next
    case Trigger
    then show ?thesis using that assms t by simp
  qed
  from t q f e show ?thesis by blast
qed

theorem triggers_are_ignored_in_storm_witness:
  "gameState \<lparr>gameState = STORM, msg = ''A STORM IS PASSING THROUGH...'', clock = 9999,
              timeouts = [(10000, EndStorm)]\<rparr> = STORM
   \<and> triggerStorm \<lparr>gameState = STORM, msg = ''A STORM IS PASSING THROUGH...'', clock = 9999,
              timeouts = [(10000, EndStorm)]\<rparr>
       = \<lparr>gameState = STORM, msg = ''A STORM IS PASSING THROUGH...'', clock = 9999,
              timeouts = [(10000, EndStorm)]\<rparr>
   \<and> gameState (App_event Ms \<lparr>gameState = STORM, msg = ''A STORM IS PASSING THROUGH...'',
              clock = 9999, timeouts = [(10000, EndStorm)]\<rparr>) = NORMAL
   \<and> EndStorm \<in> snd ` {p \<in> set [(10000 :: nat, EndStorm)]. fst p \<le> 9999 + 1}"
proof -
  let ?a = "\<lparr>gameState = STORM, msg = ''A STORM IS PASSING THROUGH...'', clock = 9999,
              timeouts = [(10000, EndStorm)]\<rparr>"
  have h: "gameState ?a = STORM" by simp
  note T = triggers_are_ignored_in_storm [OF h]
  have n: "gameState (App_event Ms ?a) = NORMAL"
    by (simp add: tick_ms_def setTimeout_def)
  have "EndStorm \<in> snd ` {p \<in> set (timeouts ?a). fst p \<le> clock ?a + 1}"
    using T [THEN conjunct2, THEN conjunct2, THEN conjunct2, rule_format, of Ms] n by blast
  then have m: "EndStorm \<in> snd ` {p \<in> set [(10000 :: nat, EndStorm)]. fst p \<le> 9999 + 1}"
    by simp
  from h T [THEN conjunct1] n m show ?thesis by blast
qed

text \<open>
  The claim as it stands fails in \<open>SceneController\<close>, which is not given the game state:
  with the storm just entered, a tick of 0.5 s with a moving hand and 9.75 s accumulated
  calls the trigger.
\<close>

theorem SceneController_triggers_in_storm:
  "gameState (triggerStorm App_init) = STORM
   \<and> snd (SceneController_useFrame
        \<lparr>isDetected = True, position = \<lparr>x2 = 1, y2 = 1/2\<rparr>, directionVector = \<lparr>x2 = 1, y2 = 0\<rparr>\<rparr>
        (1/2) (SceneController_init\<lparr>moveDurationRef := 39/4\<rparr>)) = 1"
proof -
  have mv: "SceneController_isMoving
      \<lparr>isDetected = True, position = \<lparr>x2 = 1, y2 = 1/2\<rparr>, directionVector = \<lparr>x2 = 1, y2 = 0\<rparr>\<rparr>"
    by (simp add: SceneController_isMoving_def)
  show ?thesis
    unfolding SceneController_fired using mv
    by (simp add: triggerStorm_def App_init_def setTimeout_def)
qed

section \<open>Rain: the heights at activation and the bound [0, 300]\<close>

lemma float32_int: "\<bar>m\<bar> < 2 ^ 24 \<Longrightarrow> float32 (of_int m) = of_int m"
  using float32_exact [of m 0] by simp

lemma stored_height_bounds:
  assumes "0 \<le> r" and "r < 1"
  shows "0 \<le> float32 (float64 (r * 400))" and "float32 (float64 (r * 400)) \<le> 400"
proof -
  have d0: "0 \<le> float64 (r * 400)"
    using float64_mono [of 0 "r * 400"] assms(1) by (simp add: float64_0)
  have "float64 (r * 400) \<le> float64 400"
    using assms by (intro float64_mono) simp_all
  then have d1: "float64 (r * 400) \<le> 400"
    using float64_int [of 400] by simp
  show "0 \<le> float32 (float64 (r * 400))"
    using float32_mono [OF order_refl d0] by (simp add: float32_0)
  have "float32 (float64 (r * 400)) \<le> float32 400"
    by (rule float32_mono [OF d0 d1])
  then show "float32 (float64 (r * 400)) \<le> 400"
    using float32_int [of 400] by simp
qed

lemma stored_height_350: "float32 (float64 (7/8 * 400)) = 350"
proof -
  have "(7/8::real) * 400 = 350" by simp
  moreover have "float64 350 = 350" using float64_int [of 350] by simp
  moreover have "float32 350 = 350" using float32_int [of 350] by simp
  ultimately show ?thesis by (simp only:)
qed

lemma stored_height_400: "float32 (float64 ((1 - 1 / 2 ^ 53) * 400)) = 400"
proof -
  have p: "float64 ((1 - 1 / 2 ^ 53) * 400) = 400 - 1 / 2 ^ 44"
    unfolding float64_def
    by (subst binary_round_in_binade [of 8 _ _ 44]) (simp_all add: roundTiesToEven_def)
  have q: "float32 (400 - 1 / 2 ^ 44) = 400"
    unfolding float32_def
    by (subst binary_round_in_binade [of 8 _ _ 15]) (simp_all add: roundTiesToEven_def)
  show ?thesis unfolding p q ..
qed

text \<open>
  C10, amended: at activation the height of a particle is \<^verbatim>\<open>Math.random() * 400\<close>
  stored as a float, so it is sampled uniformly, as \<^verbatim>\<open>Math.random()\<close> is, over
  \<open>[0, 400]\<close>, the value 400 being reached when the product rounds up in the store.
  This exceeds the top height 300 of the wrap, so \<open>[0, 300]\<close> does not bound the heights
  from activation on. A tick that wraps a particle puts it at 300, and a height that is
  at most 300, whether the particle has wrapped or has only fallen that far, is in
  \<open>[0, 300]\<close> after every tick with \<open>delta \<ge> 0\<close>.
\<close>

theorem rain_heights_from_activation:
  assumes "k < count" and "length positions = count * 3"
  shows "initialPositions rnd ! (k * 3 + 1) = float32 (float64 (rnd ! (k * 3 + 1) * 400))
       \<and> (0 \<le> rnd ! (k * 3 + 1) \<and> rnd ! (k * 3 + 1) < 1 \<longrightarrow>
            0 \<le> initialPositions rnd ! (k * 3 + 1) \<and> initialPositions rnd ! (k * 3 + 1) \<le> 400)
       \<and> (wraps delta (positions ! (k * 3 + 1)) \<longrightarrow>
            Rain_useFrame delta positions ! (k * 3 + 1) = 300)
       \<and> (0 \<le> delta \<and> positions ! (k * 3 + 1) \<le> 300 \<longrightarrow>
            0 \<le> Rain_useFrame delta positions ! (k * 3 + 1)
            \<and> Rain_useFrame delta positions ! (k * 3 + 1) \<le> 300)"
proof -
  have i: "initialPositions rnd ! (k * 3 + 1) = float32 (float64 (rnd ! (k * 3 + 1) * 400))"
    by (rule initialPositions_height [OF assms(1)])
  have r: "0 \<le> rnd ! (k * 3 + 1) \<and> rnd ! (k * 3 + 1) < 1 \<longrightarrow>
      0 \<le> float32 (float64 (rnd ! (k * 3 + 1) * 400))
      \<and> float32 (float64 (rnd ! (k * 3 + 1) * 400)) \<le> 400"
    using stored_height_bounds [of "rnd ! (k * 3 + 1)"] by blast
  have h: "Rain_useFrame delta positions ! (k * 3 + 1) = fall delta (positions ! (k * 3 + 1))"
    by (rule Rain_useFrame_height [OF assms(2) assms(1)])
  have w: "wraps delta (positions ! (k * 3 + 1)) \<longrightarrow> fall delta (positions ! (k * 3 + 1)) = 300"
    by (simp add: fall_def)
  have b: "0 \<le> delta \<and> positions ! (k * 3 + 1) \<le> 300 \<longrightarrow>
      0 \<le> fall delta (positions ! (k * 3 + 1)) \<and> fall delta (positions ! (k * 3 + 1)) \<le> 300"
    unfolding fall_def wraps_def by auto
  show ?thesis
    unfolding i h using r w b by blast
qed

theorem rain_heights_from_activation_witness:
  "0 < count
   \<and> length (initialPositions (replicate (count * 3) (7/8))) = count * 3
   \<and> (0::real) \<le> replicate (count * 3) (7/8) ! (0 * 3 + 1)
   \<and> replicate (count * 3) (7/8 :: real) ! (0 * 3 + 1) < 1
   \<and> initialPositions (replicate (count * 3) (7/8)) ! (0 * 3 + 1) = 350
   \<and> wraps 3 (initialPositions (replicate (count * 3) (7/8)) ! (0 * 3 + 1))
   \<and> Rain_useFrame 3 (initialPositions (replicate (count * 3) (7/8))) ! (0 * 3 + 1) = 300
   \<and> (0::real) \<le> 1
   \<and> Rain_useFrame 1 (Rain_useFrame 3 (initialPositions (replicate (count * 3) (7/8)))) ! (0 * 3 + 1)
       \<le> 300"
proof -
  let ?rnd = "replicate (count * 3) (7/8 :: real)"
  have c: "0 < count" by (simp add: count_def)
  have v: "?rnd ! (0 * 3 + 1) = 7/8" by (simp add: count_def)
  have r0: "0 \<le> ?rnd ! (0 * 3 + 1)" and r1: "?rnd ! (0 * 3 + 1) < 1"
    unfolding v by simp_all
  have len: "length (initialPositions ?rnd) = count * 3"
    by (rule initialPositions_length)
  have len': "length (Rain_useFrame 3 (initialPositions ?rnd)) = count * 3"
    by (simp add: Rain_useFrame_length initialPositions_length)
  note T = rain_heights_from_activation [OF c len, where rnd = ?rnd and delta = 3]
  have "initialPositions ?rnd ! (0 * 3 + 1) = float32 (float64 (?rnd ! (0 * 3 + 1) * 400))"
    using T by blast
  then have i: "initialPositions ?rnd ! (0 * 3 + 1) = 350"
    unfolding v stored_height_350 .
  have w: "wraps 3 (initialPositions ?rnd ! (0 * 3 + 1))"
    unfolding i by (simp add: wraps_def)
  have t: "Rain_useFrame 3 (initialPositions ?rnd) ! (0 * 3 + 1) = 300"
    using T w by blast
  have z: "(0::real) \<le> 1" by simp
  have "Rain_useFrame 3 (initialPositions ?rnd) ! (0 * 3 + 1) \<le> 300"
    unfolding t by simp
  then have u: "Rain_useFrame 1 (Rain_useFrame 3 (initialPositions ?rnd)) ! (0 * 3 + 1) \<le> 300"
    using rain_heights_from_activation [OF c len', where rnd = ?rnd and delta = 1] z by blast
  from c len r0 r1 i w t z u show ?thesis by blast
qed

text \<open>
  The claim as it stands fails in two places. When \<^verbatim>\<open>Math.random()\<close> returns
  \<open>1 - 2^-53\<close>, the height stored at activation is 400 itself, outside \<open>[0, 400)\<close>.
  And a particle that starts at 350 is at 200, inside \<open>[0, 300]\<close>, after a tick of 1 s
  that does not wrap it: the bound does not wait for a wrap.
\<close>

theorem rain_height_in_bounds_without_wrap:
  "(0::real) \<le> 1 - 1 / 2 ^ 53 \<and> (1::real) - 1 / 2 ^ 53 < 1
   \<and> initialPositions (replicate (count * 3) (1 - 1 / 2 ^ 53)) ! (0 * 3 + 1) = 400
   \<and> initialPositions (replicate (count * 3) (7/8)) ! (0 * 3 + 1) = 350
   \<and> \<not> wraps 1 (initialPositions (replicate (count * 3) (7/8)) ! (0 * 3 + 1))
   \<and> Rain_useFrame 1 (initialPositions (replicate (count * 3) (7/8))) ! (0 * 3 + 1) = 200
   \<and> (0::real) \<le> 200 \<and> (200::real) \<le> 300"
proof -
  let ?rnd = "replicate (count * 3) (7/8 :: real)"
  let ?top = "replicate (count * 3) (1 - 1 / 2 ^ 53 :: real)"
  have c: "0 < count" by (simp add: count_def)
  have v: "?rnd ! (0 * 3 + 1) = 7/8" by (simp add: count_def)
  have v': "?top ! (0 * 3 + 1) = 1 - 1 / 2 ^ 53" by (simp add: count_def)
  have i: "initialPositions ?rnd ! (0 * 3 + 1) = 350"
    unfolding initialPositions_height [OF c] v stored_height_350 ..
  have i': "initialPositions ?top ! (0 * 3 + 1) = 400"
    unfolding initialPositions_height [OF c] v' stored_height_400 ..
  have w: "\<not> wraps 1 (initialPositions ?rnd ! (0 * 3 + 1))"
    unfolding i by (simp add: wraps_def)
  have "Rain_useFrame 1 (initialPositions ?rnd) ! (0 * 3 + 1)
      = fall 1 (initialPositions ?rnd ! (0 * 3 + 1))"
    by (rule Rain_useFrame_height [OF initialPositions_length c])
  then have t: "Rain_useFrame 1 (initialPositions ?rnd) ! (0 * 3 + 1) = 200"
    unfolding i by (simp add: fall_def wraps_def)
  from i i' w t show ?thesis by simp
qed

end
